theory Spec2Isabelle
  imports Complex_Main
begin

section \<open>statannot: statistical annotations on categorical plots\<close>

text \<open>
  A shallow embedding of \<^verbatim>\<open>statannot/format_annotations.py\<close> and of
  \<^verbatim>\<open>add_stat_annotation\<close> in \<^verbatim>\<open>statannot/statannot.py\<close>.

  Python floats are modelled as \<^typ>\<open>real\<close> (no rounding); a float that may be NaN
  is a \<^typ>\<open>real option\<close> with \<open>None\<close> for NaN. Every \<^verbatim>\<open>raise\<close>, failed
  \<^verbatim>\<open>assert\<close> and library exception is a value of \<open>error\<close>, returned as \<open>Inl\<close>.
  What the function prints is not modelled.
\<close>

subsection \<open>Errors\<close>

datatype error =
    TestNotSpecified          \<comment> \<open>ValueError: `test` must be specified\<close>
  | CustomMustBeNone          \<comment> \<open>ValueError: custom `pvalues` or `test_short_name` must be None\<close>
  | TestNotImplemented        \<comment> \<open>ValueError: test value should be one of ...\<close>
  | PvaluesNotSpecified       \<comment> \<open>ValueError: custom `pvalues` must be specified\<close>
  | TestMustBeNone            \<comment> \<open>ValueError: `test` must be None\<close>
  | PvaluesLength             \<comment> \<open>ValueError: `pvalues` should be of the same length as `box_pairs`\<close>
  | TextAnnotCustomLength     \<comment> \<open>ValueError: `text_annot_custom` should be of same length\<close>
  | NotIn string              \<comment> \<open>raised by assert_is_in, with its label\<close>
  | InvalidBoxPair            \<comment> \<open>ValueError: box_pairs contains an invalid box pair\<close>
  | AssertionError            \<comment> \<open>pvalue_thresholds are not monotonically decreasing\<close>
  | KeyError                  \<comment> \<open>a missing dict key; pandas sort_values(by=0) without column 0\<close>
  | IndexError                \<comment> \<open>index out of range\<close>
  | NotInList                 \<comment> \<open>ValueError of list.index\<close>
  | TypeError                 \<comment> \<open>arithmetic on None, subscript of a non-sequence\<close>
  | UnboundLocalError         \<comment> \<open>a local variable read before assignment\<close>
  | AllNaNSlice               \<comment> \<open>ValueError of numpy.nanargmax: empty or all-NaN selection\<close>
  | EmptySequence             \<comment> \<open>ValueError of max() on an empty list\<close>
  | AxisLimitNaN              \<comment> \<open>ValueError of matplotlib: axis limits cannot be NaN\<close>
  | External string           \<comment> \<open>an exception raised by a collaborator outside the sources\<close>

text \<open>Sequencing of computations that may raise.\<close>

definition bind :: "error + 'a \<Rightarrow> ('a \<Rightarrow> error + 'b) \<Rightarrow> error + 'b" where
  "bind m f = (case m of Inl e \<Rightarrow> Inl e | Inr v \<Rightarrow> f v)"

text \<open>\<^verbatim>\<open>xs.index(v)\<close> and \<^verbatim>\<open>xs[i]\<close> for a non-negative index.\<close>

fun index_of :: "'a list \<Rightarrow> 'a \<Rightarrow> error + nat" where
  "index_of [] v = Inl NotInList"
| "index_of (a # as) v = (if a = v then Inr 0 else bind (index_of as v) (\<lambda>i. Inr (Suc i)))"

definition getitem :: "'a list \<Rightarrow> nat \<Rightarrow> error + 'a" where
  "getitem xs i = (if i < length xs then Inr (xs ! i) else Inl IndexError)"

subsection \<open>Box names and test results\<close>

text \<open>
  A box is named by its category, or by the tuple (category, hue level) on a plot
  grouped by hue.
\<close>

datatype box_name = Cat string | CatHue string string

text \<open>
  Modelled from the spec: the class \<^verbatim>\<open>StatResult\<close> (\<^verbatim>\<open>stats/StatResult.py\<close>) is not
  among the sources. Section 3 of the specification gives a TestResult its test name and
  short name, an optional statistic, the p-value, the significance suffix (default empty)
  and an optional corrected-significance flag; \<open>box1\<close>, \<open>box2\<close> and
  \<open>correction_method\<close> are the attributes that \<^verbatim>\<open>add_stat_annotation\<close> assigns.
\<close>

record stat_result =
  test_description :: string
  test_short_name :: string
  stat_str :: "string option"
  stat :: "real option"
  pval :: real
  significance_suffix :: string
  box1 :: "box_name option"
  box2 :: "box_name option"
  correction_method :: "string option"
  corrected_significance :: "bool option"

text \<open>\<^verbatim>\<open>StatResult(description, short_name, stat_str, stat, pval)\<close>\<close>

definition StatResult ::
  "string \<Rightarrow> string \<Rightarrow> string option \<Rightarrow> real option \<Rightarrow> real \<Rightarrow> stat_result" where
  "StatResult d n ss s p =
     \<lparr> test_description = d, test_short_name = n, stat_str = ss, stat = s, pval = p,
       significance_suffix = [], box1 = None, box2 = None,
       correction_method = None, corrected_significance = None \<rparr>"

subsection \<open>format\_annotations.py\<close>

type_synonym thresholds = "(real \<times> string) list"

text \<open>
  \<^verbatim>\<open>pd.DataFrame(pvalue_thresholds).sort_values(by=0, ascending=False).values\<close>:
  the rows in descending order of the cutoff. A frame built from an empty list has no
  column 0, and pandas raises KeyError. The order pandas gives to rows of equal cutoff
  is never observed: the assertion of \<open>pval_annotation_text\<close> fails at the second of them.
\<close>

definition sort_values_desc :: "thresholds \<Rightarrow> error + thresholds" where
  "sort_values_desc tbl =
     (if tbl = [] then Inl KeyError else Inr (rev (sort_key fst tbl)))"

text \<open>
  The loop of \<^verbatim>\<open>pval_annotation_text\<close> over the sorted rows, with the running
  \<^verbatim>\<open>last_p_upper_bound\<close>; \<open>ps\<close> are the p-values and \<open>anns\<close> the
  \<^verbatim>\<open>significance_annotations\<close> so far.
  \<^verbatim>\<open>significance_annotations[p_values <= p_upper_bound] = significance_str\<close>
  overwrites the entries whose p-value is at most the bound.
\<close>

fun assign_labels ::
  "real \<Rightarrow> thresholds \<Rightarrow> real list \<Rightarrow> string list \<Rightarrow> error + string list" where
  "assign_labels last_p_upper_bound [] ps anns = Inr anns"
| "assign_labels last_p_upper_bound ((p_upper_bound, significance_str) # rest) ps anns =
     (if p_upper_bound < last_p_upper_bound
      then assign_labels p_upper_bound rest ps
             (map (\<lambda>(p, a). if p \<le> p_upper_bound then significance_str else a) (zip ps anns))
      else Inl AssertionError)"

text \<open>
  \<^verbatim>\<open>pval_annotation_text(result, pvalue_thresholds)\<close>. The argument \<open>results\<close> is
  \<^verbatim>\<open>np.atleast_1d(result)\<close>: a single StatResult is the one-element list.
  \<^verbatim>\<open>return_results\<close> (\<^verbatim>\<open>stats/utils.py\<close>) is not among the sources and is taken
  as the parameter \<open>return_results\<close>.
\<close>

definition pval_annotation_text ::
  "(string list \<Rightarrow> 'r) \<Rightarrow> stat_result list \<Rightarrow> thresholds \<Rightarrow> error + 'r" where
  "pval_annotation_text return_results results pvalue_thresholds =
     (let p_values = map pval results;
          significance_suffixes = map significance_suffix results;
          significance_annotations = replicate (length p_values) []
      in case sort_values_desc pvalue_thresholds of
           Inl e \<Rightarrow> Inl e
         | Inr sorted_thresholds \<Rightarrow>
            (case assign_labels 1.1 sorted_thresholds p_values significance_annotations of
               Inl e \<Rightarrow> Inl e
             | Inr anns \<Rightarrow>
                 Inr (return_results
                        (map (\<lambda>(star, signif). star @ signif) (zip anns significance_suffixes)))))"

text \<open>
  \<^verbatim>\<open>simple_text(result, pvalue_format, pvalue_thresholds, test_short_name)\<close>.
  \<open>format_float fmt v\<close> stands for \<^verbatim>\<open>fmt.format(v)\<close> on a float, a parameter.
  The first threshold, in ascending order of cutoff, that is strictly above the p-value
  gives the text; the loop's \<^verbatim>\<open>else\<close> branch gives the exact p-value. The string
  \<open>p_le\<close> is \<^verbatim>\<open>"p <= "\<close> with the sign written as the three bytes of U+2264.
\<close>

definition p_le :: string where
  "p_le = [CHR ''p'', CHR '' '', CHR 0xE2, CHR 0x89, CHR 0xA4, CHR '' '']"

definition simple_text ::
  "(string \<Rightarrow> real \<Rightarrow> string) \<Rightarrow> stat_result \<Rightarrow> string \<Rightarrow> thresholds \<Rightarrow> string option \<Rightarrow> string" where
  "simple_text format_float result pvalue_format pvalue_thresholds name =
     (let thresholds = sort_key fst pvalue_thresholds;
          text = (case name of None \<Rightarrow> [] | Some n \<Rightarrow> if n = [] then [] else n @ '' '');
          pval_text = (case filter (\<lambda>threshold. pval result < fst threshold) thresholds of
                         threshold # _ \<Rightarrow> p_le @ snd threshold
                       | [] \<Rightarrow> format_float (''p = '' @ pvalue_format) (pval result))
      in text @ pval_text @ significance_suffix result)"

subsection \<open>Plot geometry\<close>

text \<open>
  The observations of one group as seaborn keeps them: a numpy array of integer dtype,
  or one of float dtype, where an observation may be missing (NaN, \<open>None\<close>). seaborn
  leaves the dtype of the caller's value column as it is.
\<close>

datatype observations = Ints "int list" | Floats "real option list"

text \<open>
  The attributes of seaborn's plotter object that \<^verbatim>\<open>add_stat_annotation\<close> reads.
  The plotter is built by seaborn from the caller's data and is an input here.
  \<open>plot_hues = None\<close> is a plot without hue grouping; otherwise \<open>plot_hues ! g\<close> holds
  the hue level of every observation of group \<open>g\<close>, parallel to \<open>plot_data ! g\<close>.
\<close>

record plotter =
  group_names :: "string list"
  hue_names :: "string list"
  hue_offsets :: "real list"
  plot_hues :: "string list list option"
  plot_data :: "observations list"

text \<open>
  \<^verbatim>\<open>find_x_position_box(b_plotter, box_name)\<close>. Without hue the box name is the
  category itself; a tuple is then not among the group names and \<^verbatim>\<open>index\<close> raises.
  With hue the name is subscripted; the function is only called on the names built
  from the plotter, which are tuples then.
\<close>

definition find_x_position_box :: "plotter \<Rightarrow> box_name \<Rightarrow> error + real" where
  "find_x_position_box b_plotter box_name =
     (case plot_hues b_plotter of
        None \<Rightarrow>
          (case box_name of
             Cat cat \<Rightarrow> bind (index_of (group_names b_plotter) cat) (\<lambda>group_pos. Inr (real group_pos + 0))
           | CatHue _ _ \<Rightarrow> Inl NotInList)
      | Some _ \<Rightarrow>
          (case box_name of
             CatHue cat hue_level \<Rightarrow>
               bind (index_of (hue_names b_plotter) hue_level) (\<lambda>k.
               bind (getitem (hue_offsets b_plotter) k) (\<lambda>hue_offset.
               bind (index_of (group_names b_plotter) cat) (\<lambda>group_pos.
               Inr (real group_pos + hue_offset))))
           | Cat _ \<Rightarrow> Inl TypeError))"

text \<open>The numbers of a float array that are not NaN.\<close>

definition non_nan :: "real option list \<Rightarrow> real list" where
  "non_nan vs = concat (map (\<lambda>v. case v of None \<Rightarrow> [] | Some r \<Rightarrow> [r]) vs)"

text \<open>
  \<^verbatim>\<open>remove_na\<close> drops the missing observations and keeps the dtype;
  \<^verbatim>\<open>group_data[hue_mask]\<close> keeps the observations whose hue level is the requested one;
  \<open>obs_values\<close> are the observations as numbers.
\<close>

definition remove_na :: "observations \<Rightarrow> observations" where
  "remove_na d = (case d of Ints vs \<Rightarrow> Ints vs | Floats vs \<Rightarrow> Floats (map Some (non_nan vs)))"

definition hue_masked :: "string list \<Rightarrow> string \<Rightarrow> observations \<Rightarrow> observations" where
  "hue_masked group_hues hue_level d =
     (case d of
        Ints vs \<Rightarrow> Ints (map snd (filter (\<lambda>(h, v). h = hue_level) (zip group_hues vs)))
      | Floats vs \<Rightarrow> Floats (map snd (filter (\<lambda>(h, v). h = hue_level) (zip group_hues vs))))"

definition obs_values :: "observations \<Rightarrow> real list" where
  "obs_values d = (case d of Ints vs \<Rightarrow> map real_of_int vs | Floats vs \<Rightarrow> non_nan vs)"

text \<open>
  \<^verbatim>\<open>get_box_data(b_plotter, box_name)\<close>. Without hue the category is
  \<^verbatim>\<open>box_name or box_name[0]\<close>: an empty name is false, and subscripting it raises.
\<close>

definition get_box_data :: "plotter \<Rightarrow> box_name \<Rightarrow> error + observations" where
  "get_box_data b_plotter box_name =
     (case plot_hues b_plotter of
        None \<Rightarrow>
          (case box_name of
             Cat cat \<Rightarrow>
               if cat = [] then Inl IndexError
               else bind (index_of (group_names b_plotter) cat) (\<lambda>index.
                    bind (getitem (plot_data b_plotter) index) (\<lambda>group_data.
                    Inr (remove_na group_data)))
           | CatHue _ _ \<Rightarrow> Inl NotInList)
      | Some hues \<Rightarrow>
          (case box_name of
             CatHue cat hue_level \<Rightarrow>
               bind (index_of (group_names b_plotter) cat) (\<lambda>index.
               bind (getitem (plot_data b_plotter) index) (\<lambda>group_data.
               bind (getitem hues index) (\<lambda>group_hues.
               Inr (remove_na (hue_masked group_hues hue_level group_data)))))
           | Cat _ \<Rightarrow> Inl TypeError))"

text \<open>
  One box data structure. Python builds it as a dict and adds the keys \<open>xi\<close> and
  \<open>i_box_pair\<close> in later copies; here they are fields from the start, 0 until set.
  \<open>ymax\<close> is NaN (\<open>None\<close>) for a box without data. \<open>int_typed\<close> records what numpy
  sees of the two numbers \<open>x\<close> and \<open>ymax\<close>: both are integers when the plot has no hue
  (the position is a Python int, the group index plus 0; with hue a float offset is
  added) and the box has observations of integer dtype (\<^verbatim>\<open>np.amax\<close> of an integer
  array is a numpy integer; the NaN of an empty box is a float).
\<close>

record box_struct =
  box :: box_name
  label :: string
  x :: real
  box_data :: observations
  ymax :: "real option"
  int_typed :: bool
  xi :: nat
  i_box_pair :: nat

definition box_label :: "box_name \<Rightarrow> string" where
  "box_label b = (case b of Cat g \<Rightarrow> g | CatHue g h \<Rightarrow> g @ ''_'' @ h)"

definition make_box_names :: "plotter \<Rightarrow> box_name list" where
  "make_box_names box_plotter =
     (case plot_hues box_plotter of
        None \<Rightarrow> map Cat (group_names box_plotter)
      | Some _ \<Rightarrow> concat (map (\<lambda>group_name. map (\<lambda>hue_name. CatHue group_name hue_name)
                                              (hue_names box_plotter))
                            (group_names box_plotter)))"

definition make_box_struct :: "plotter \<Rightarrow> box_name \<Rightarrow> error + box_struct" where
  "make_box_struct box_plotter name =
     bind (find_x_position_box box_plotter name) (\<lambda>pos.
     bind (get_box_data box_plotter name) (\<lambda>d.
     Inr \<lparr> box = name, label = box_label name, x = pos, box_data = d,
           ymax = (if length (obs_values d) > 0 then Some (Max (set (obs_values d))) else None),
           int_typed = (plot_hues box_plotter = None
                        \<and> (case d of Ints vs \<Rightarrow> vs \<noteq> [] | Floats _ \<Rightarrow> False)),
           xi = 0, i_box_pair = 0 \<rparr>))"

text \<open>A list comprehension whose element expression may raise.\<close>

fun map_err :: "('a \<Rightarrow> error + 'b) \<Rightarrow> 'a list \<Rightarrow> error + 'b list" where
  "map_err f [] = Inr []"
| "map_err f (a # as) = bind (f a) (\<lambda>b. bind (map_err f as) (\<lambda>bs. Inr (b # bs)))"

text \<open>
  The box structures sorted by position along the x axis (\<^verbatim>\<open>sorted\<close> is stable),
  each with its index \<open>xi\<close> in that order.
\<close>

definition make_box_structs :: "plotter \<Rightarrow> error + box_struct list" where
  "make_box_structs box_plotter =
     bind (map_err (make_box_struct box_plotter) (make_box_names box_plotter)) (\<lambda>box_structs.
     Inr (map (\<lambda>(i, box_struct). box_struct\<lparr>xi := i\<rparr>)
              (enumerate 0 (sort_key x box_structs))))"

text \<open>
  \<^verbatim>\<open>box_structs_dic\<close>: access by box name. In a dict comprehension a later entry
  replaces an earlier one with the same key.
\<close>

definition box_structs_dic :: "box_struct list \<Rightarrow> box_name \<Rightarrow> box_struct option" where
  "box_structs_dic box_structs = map_of (rev (map (\<lambda>box_struct. (box box_struct, box_struct)) box_structs))"

subsection \<open>Resolving the requested pairs\<close>

text \<open>
  The body of the loop over \<^verbatim>\<open>enumerate(box_pairs)\<close> for a valid pair: both
  structures get the index \<open>i\<close> of the pair in the request, and the one further left
  comes first.
\<close>

definition order_pair :: "nat \<Rightarrow> box_struct \<Rightarrow> box_struct \<Rightarrow> box_struct \<times> box_struct" where
  "order_pair i s1 s2 =
     (let box_struct1 = s1\<lparr>i_box_pair := i\<rparr>;
          box_struct2 = s2\<lparr>i_box_pair := i\<rparr>
      in if x box_struct1 \<le> x box_struct2
         then (box_struct1, box_struct2)
         else (box_struct2, box_struct1))"

text \<open>The loop, from index \<open>i\<close> on: an invalid pair raises.\<close>

fun make_box_struct_pairs ::
  "box_name list \<Rightarrow> (box_name \<Rightarrow> box_struct option) \<Rightarrow> nat \<Rightarrow> (box_name \<times> box_name) list
     \<Rightarrow> error + (box_struct \<times> box_struct) list" where
  "make_box_struct_pairs box_names dic i [] = Inr []"
| "make_box_struct_pairs box_names dic i ((b1, b2) # rest) =
     (let valid = (b1 \<in> set box_names \<and> b2 \<in> set box_names)
      in if \<not> valid then Inl InvalidBoxPair
         else (case (dic b1, dic b2) of
                 (Some s1, Some s2) \<Rightarrow>
                   bind (make_box_struct_pairs box_names dic (Suc i) rest)
                        (\<lambda>pairs. Inr (order_pair i s1 s2 # pairs))
               | _ \<Rightarrow> Inl KeyError))"

text \<open>
  \<^verbatim>\<open>sorted(box_struct_pairs, key=lambda a: abs(a[1]['x'] - a[0]['x']))\<close>;
  Python's \<^verbatim>\<open>sorted\<close> is stable, as \<open>sort_key\<close> is.
\<close>

definition pair_distance :: "box_struct \<times> box_struct \<Rightarrow> real" where
  "pair_distance a = \<bar>x (snd a) - x (fst a)\<bar>"

definition sort_box_struct_pairs ::
  "(box_struct \<times> box_struct) list \<Rightarrow> (box_struct \<times> box_struct) list" where
  "sort_box_struct_pairs box_struct_pairs = sort_key pair_distance box_struct_pairs"

subsection \<open>The plot surface and the collaborators outside the sources\<close>

text \<open>
  What is drawn on the axes: every \<^verbatim>\<open>ax.plot(line_x, line_y, ...)\<close> adds a line,
  every \<^verbatim>\<open>ax.annotate(text, xy=..., xytext=(0, text_offset), ...)\<close> adds a text.
  Colour, line width and font size do not enter the computation and are left out.
\<close>

record annotation =
  ann_text :: string
  ann_xy :: "real \<times> real option"
  ann_xytext :: "real \<times> real"

record axes =
  ylim :: "real \<times> real"
  plotted :: "(real list \<times> real option list) list"
  annotated :: "annotation list"

text \<open>The object returned by \<^verbatim>\<open>get_correction_method\<close>, or \<open>None\<close>.\<close>

record correction =
  corr_name :: string
  corr_type :: nat
  corr_apply :: "real list \<Rightarrow> real \<Rightarrow> bool list"

text \<open>
  Functions and constants the code calls that are outside the sources:
  \<^verbatim>\<open>IMPLEMENTED_TESTS\<close>, \<^verbatim>\<open>get_correction_method\<close>, \<^verbatim>\<open>stat_test\<close> (with the
  test name, the correction and the number of comparisons), \<^verbatim>\<open>return_results\<close>,
  \<^verbatim>\<open>str.format\<close> on a float, and the two measurements of matplotlib:
  \<open>annotation_top\<close> is \<^verbatim>\<open>_get_annotation_top_in_data_coords\<close> (NaN without a renderer)
  and \<open>guess_top\<close> is \<^verbatim>\<open>_guess_annotation_top_from_font_size\<close> as a function of
  the text baseline.
\<close>

record ext =
  implemented_tests :: "string list"
  get_correction_method :: "string option \<Rightarrow> error + correction option"
  stat_test :: "real list \<Rightarrow> real list \<Rightarrow> string \<Rightarrow> correction option \<Rightarrow> nat \<Rightarrow> error + stat_result"
  return_results :: "string list \<Rightarrow> string"
  format_float :: "string \<Rightarrow> real \<Rightarrow> string"
  annotation_top :: "axes \<Rightarrow> annotation \<Rightarrow> real option"
  guess_top :: "axes \<Rightarrow> real \<Rightarrow> real"

text \<open>
  Modelled from the spec: \<^verbatim>\<open>assert_is_in\<close> (\<^verbatim>\<open>utils.py\<close>) is not among the sources.
  Section 6 lists an invalid location or text-format selector among the validation
  errors raised before any drawing: the value must be one of the valid values.
\<close>

definition assert_is_in :: "'a \<Rightarrow> 'a list \<Rightarrow> string \<Rightarrow> error + unit" where
  "assert_is_in v valid_values lbl = (if v \<in> set valid_values then Inr () else Inl (NotIn lbl))"

subsection \<open>Arguments of \<^verbatim>\<open>add_stat_annotation\<close>\<close>

text \<open>
  \<open>None\<close> in \<open>pvalue_format_string\<close> and \<open>pvalue_thresholds\<close> is the sentinel
  \<^verbatim>\<open>DEFAULT\<close>; in \<open>num_comparisons\<close> it is \<^verbatim>\<open>'auto'\<close>; elsewhere it is Python's
  \<^verbatim>\<open>None\<close>. \<open>alpha\<close> is \<^verbatim>\<open>stats_params.get("alpha", 0.05)\<close>. \<open>box_plotter\<close> is the
  plotter seaborn builds from \<^verbatim>\<open>plot, data, x, y, hue, order, hue_order, width\<close>.
\<close>

record args =
  box_plotter :: plotter
  box_pairs :: "(box_name \<times> box_name) list"
  perform_stat_test :: bool
  pvalues :: "real list option"
  test_short_name_arg :: "string option"
  test :: "string option"
  text_format :: "string option"
  pvalue_format_string :: "string option"
  text_annot_custom :: "string option list option"
  loc :: string
  show_test_name :: bool
  pvalue_thresholds :: "thresholds option"
  comparisons_correction :: "string option"
  num_comparisons :: "nat option"
  use_fixed_offset :: bool
  line_offset_to_box :: "real option"
  line_offset :: "real option"
  line_height :: real
  text_offset :: real
  verbose :: int
  alpha :: real

definition default_format_strings :: "args \<Rightarrow> string \<times> string" where
  "default_format_strings a =
     (case pvalue_format_string a of
        None \<Rightarrow> (''{:.3e}'', ''{:.2f}'')
      | Some s \<Rightarrow> (s, s))"

definition default_thresholds :: "args \<Rightarrow> thresholds" where
  "default_thresholds a =
     (case pvalue_thresholds a of
        None \<Rightarrow>
          (if text_format a = Some ''star''
           then [(0.0001, ''****''), (0.001, ''***''), (0.01, ''**''), (0.05, ''*''), (1, ''ns'')]
           else [(0.00001, ''1e-5''), (0.0001, ''1e-4''), (0.001, ''0.001''), (0.01, ''0.01'')])
      | Some t \<Rightarrow> t)"

definition validate_arguments :: "ext \<Rightarrow> args \<Rightarrow> error + unit" where
  "validate_arguments e a =
     bind (if perform_stat_test a
           then (case test a of
                   None \<Rightarrow> Inl TestNotSpecified
                 | Some t \<Rightarrow>
                     if pvalues a \<noteq> None \<or> test_short_name_arg a \<noteq> None then Inl CustomMustBeNone
                     else if t \<notin> set (implemented_tests e) then Inl TestNotImplemented
                     else Inr ())
           else (case pvalues a of
                   None \<Rightarrow> Inl PvaluesNotSpecified
                 | Some ps \<Rightarrow>
                     if test a \<noteq> None then Inl TestMustBeNone
                     else if length ps \<noteq> length (box_pairs a) then Inl PvaluesLength
                     else Inr ())) (\<lambda>_.
     bind (case text_annot_custom a of
             None \<Rightarrow> Inr ()
           | Some t \<Rightarrow> if length t \<noteq> length (box_pairs a) then Inl TextAnnotCustomLength else Inr ()) (\<lambda>_.
     bind (assert_is_in (loc a) [''inside'', ''outside''] ''argument `loc`'') (\<lambda>_.
     assert_is_in (text_format a) [Some ''full'', Some ''simple'', Some ''star'']
       ''argument `text_format`'')))"

text \<open>
  With \<^verbatim>\<open>verbose >= 1\<close> and the star format the legend is printed, and
  \<^verbatim>\<open>pvalue_thresholds\<close> is replaced by its sorted copy.
\<close>

definition legend_thresholds :: "args \<Rightarrow> thresholds \<Rightarrow> error + thresholds" where
  "legend_thresholds a tbl =
     (if verbose a \<ge> 1 \<and> text_format a = Some ''star'' then sort_values_desc tbl else Inr tbl)"

text \<open>
  The offsets in data coordinates, \<open>(y_offset, y_offset_to_box)\<close>. With a given
  \<^verbatim>\<open>line_offset\<close> and a location that is neither inside nor outside,
  \<^verbatim>\<open>line_offset_to_box\<close> may still be None when it is multiplied.
\<close>

definition offsets :: "args \<Rightarrow> real \<Rightarrow> error + real \<times> real" where
  "offsets a yrange =
     (let (lo, lotb) =
        (case line_offset a of
           None \<Rightarrow>
             (if loc a = ''inside''
              then (0.05, (case line_offset_to_box a of None \<Rightarrow> Some 0.06 | Some v \<Rightarrow> Some v))
              else (0.03, (case line_offset_to_box a of None \<Rightarrow> Some 0.03 | Some v \<Rightarrow> Some v)))
         | Some l \<Rightarrow>
             (if loc a = ''inside''
              then (l, (case line_offset_to_box a of None \<Rightarrow> Some 0.06 | Some v \<Rightarrow> Some v))
              else if loc a = ''outside'' then (l, Some l)
              else (l, line_offset_to_box a)))
      in case lotb of
           None \<Rightarrow> Inl TypeError
         | Some b \<Rightarrow> Inr (lo * yrange, b * yrange))"

subsection \<open>The occupancy stack\<close>

text \<open>
  \<^verbatim>\<open>y_stack_arr\<close>, a numpy array of three rows: the x positions, the highest y
  consumed at each position (NaN for a box without data), and the number of
  annotations stacked there. \<^verbatim>\<open>np.array\<close> chooses the dtype from the numbers it is
  given: the array is of integer dtype when every x and every ymax is an integer (the
  counts are), and of float dtype otherwise; an array without columns is float.
\<close>

record y_stack_arr =
  int_dtype :: bool
  row_x :: "real list"
  row_top :: "real option list"
  row_count :: "nat list"

text \<open>
  Assigning a float to an element of an array of integer dtype drops its fractional
  part (truncation towards zero). A NaN has no integer value; it is never assigned to
  an integer array here, whose heights are all numbers, so that the top computed from
  them is a number.
\<close>

definition toward_zero :: "real \<Rightarrow> int" where
  "toward_zero r = (if 0 \<le> r then \<lfloor>r\<rfloor> else \<lceil>r\<rceil>)"

definition store_as :: "bool \<Rightarrow> real option \<Rightarrow> real option" where
  "store_as as_int v = (if as_int then map_option (\<lambda>r. real_of_int (toward_zero r)) v else v)"

definition init_y_stack_arr :: "string \<Rightarrow> real \<times> real \<Rightarrow> box_struct list \<Rightarrow> y_stack_arr" where
  "init_y_stack_arr location lims box_structs =
     (let as_int = (box_structs \<noteq> [] \<and> list_all int_typed box_structs)
      in \<lparr> int_dtype = as_int,
           row_x = map x box_structs,
           row_top = (if location = ''outside''
                      then map (\<lambda>_. store_as as_int (Some (snd lims))) box_structs
                      else map ymax box_structs),
           row_count = map (\<lambda>_. 0) box_structs \<rparr>)"

text \<open>
  \<^verbatim>\<open>np.nanargmax\<close>: the index of the first occurrence of the largest value that is
  not NaN; it raises on an empty or all-NaN selection.
\<close>

definition nanargmax :: "real option list \<Rightarrow> error + nat" where
  "nanargmax vs =
     (case non_nan vs of
        [] \<Rightarrow> Inl AllNaNSlice
      | d # ds \<Rightarrow> index_of vs (Some (Max (set (d # ds)))))"

text \<open>The boolean mask \<^verbatim>\<open>(x1 <= y_stack_arr[0, :]) & (y_stack_arr[0, :] <= x2)\<close>.\<close>

definition in_range :: "real \<Rightarrow> real \<Rightarrow> real \<Rightarrow> bool" where
  "in_range x1 x2 v = (x1 \<le> v \<and> v \<le> x2)"

definition select_range :: "real \<Rightarrow> real \<Rightarrow> y_stack_arr \<Rightarrow> real option list" where
  "select_range x1 x2 arr =
     map snd (filter (\<lambda>(v, t). in_range x1 x2 v) (zip (row_x arr) (row_top arr)))"

text \<open>
  The two assignments that close an iteration:
  \<^verbatim>\<open>y_stack_arr[1, mask] = y_top_annot\<close>, which stores the top in the dtype of the
  array, and \<^verbatim>\<open>y_stack_arr[2, xi1:xi2 + 1] = y_stack_arr[2, xi1:xi2 + 1] + 1\<close>.
\<close>

definition update_stack ::
  "real \<Rightarrow> real \<Rightarrow> nat \<Rightarrow> nat \<Rightarrow> real option \<Rightarrow> y_stack_arr \<Rightarrow> y_stack_arr" where
  "update_stack x1 x2 xi1 xi2 y_top_annot arr =
     arr\<lparr> row_top := map (\<lambda>(v, t). if in_range x1 x2 v then store_as (int_dtype arr) y_top_annot
                                   else t)
                         (zip (row_x arr) (row_top arr)),
          row_count := map (\<lambda>(j, c). if xi1 \<le> j \<and> j < xi2 + 1 then c + 1 else c)
                           (enumerate 0 (row_count arr)) \<rparr>"

text \<open>
  Python's \<^verbatim>\<open>max\<close> on floats keeps the first element until a later one compares
  greater; a comparison with NaN is false.
\<close>

definition float_gt :: "real option \<Rightarrow> real option \<Rightarrow> bool" where
  "float_gt a b = (case (a, b) of (Some p, Some q) \<Rightarrow> p > q | _ \<Rightarrow> False)"

definition py_max :: "real option list \<Rightarrow> error + real option" where
  "py_max vs =
     (case vs of
        [] \<Rightarrow> Inl EmptySequence
      | v # rest \<Rightarrow> Inr (fold (\<lambda>item m. if float_gt item m then item else m) rest v))"

subsection \<open>The test results\<close>

text \<open>
  One iteration of the loop that fetches the results, for a resolved pair.
  \<^verbatim>\<open>num_comparisons != "auto" and num_comparisons or len(box_struct_pairs)\<close> falls back
  to the number of pairs for \<^verbatim>\<open>'auto'\<close> and for 0.
\<close>

definition make_result ::
  "ext \<Rightarrow> args \<Rightarrow> correction option \<Rightarrow> nat \<Rightarrow> box_struct \<times> box_struct \<Rightarrow> error + stat_result" where
  "make_result e a corr n_pairs pr =
     (let box_struct1 = fst pr; box_struct2 = snd pr; i = i_box_pair box_struct1
      in bind (if perform_stat_test a
               then (case test a of
                       None \<Rightarrow> Inl TypeError
                     | Some t \<Rightarrow>
                         stat_test e (obs_values (box_data box_struct1))
                           (obs_values (box_data box_struct2)) t corr
                           (case num_comparisons a of
                              None \<Rightarrow> n_pairs
                            | Some n \<Rightarrow> if n = 0 then n_pairs else n))
               else (case pvalues a of
                       None \<Rightarrow> Inl TypeError
                     | Some ps \<Rightarrow>
                         bind (getitem ps i) (\<lambda>p.
                         Inr (StatResult ''Custom statistical test''
                                (case test_short_name_arg a of None \<Rightarrow> [] | Some s \<Rightarrow> s)
                                None None p))))
           (\<lambda>result. Inr (result\<lparr>box1 := Some (box box_struct1), box2 := Some (box box_struct2)\<rparr>)))"

definition fetch_results ::
  "ext \<Rightarrow> args \<Rightarrow> correction option \<Rightarrow> (box_struct \<times> box_struct) list \<Rightarrow> error + stat_result list" where
  "fetch_results e a corr box_struct_pairs =
     map_err (make_result e a corr (length box_struct_pairs)) box_struct_pairs"

text \<open>
  A correction of type 1 is applied to the whole set of p-values; the loop over
  \<^verbatim>\<open>zip(significant_pvalues, test_result_list)\<close> marks the results it reaches.
  The attributes are plain fields here; what the class derives from them is outside
  the sources.
\<close>

definition apply_correction :: "correction option \<Rightarrow> real \<Rightarrow> stat_result list \<Rightarrow> stat_result list" where
  "apply_correction corr al test_result_list =
     (case corr of
        None \<Rightarrow> test_result_list
      | Some c \<Rightarrow>
          if corr_type c = 1
          then (let significant_pvalues = corr_apply c (map pval test_result_list) al
                in map (\<lambda>(is_significant, result).
                          result\<lparr>correction_method := Some (corr_name c),
                                 corrected_significance := Some is_significant\<rparr>)
                       (zip significant_pvalues test_result_list)
                   @ drop (length significant_pvalues) test_result_list)
          else test_result_list)"

subsection \<open>The text of an annotation\<close>

text \<open>
  The text for the pair with request index \<open>i\<close>, \<open>None\<close> when no text is drawn.
  The \<^verbatim>\<open>is\<close> comparisons of the source are read as equality. A format outside the
  four branches leaves \<^verbatim>\<open>text\<close> unassigned.
\<close>

definition annotation_text ::
  "ext \<Rightarrow> args \<Rightarrow> thresholds \<Rightarrow> stat_result \<Rightarrow> nat \<Rightarrow> error + string option" where
  "annotation_text e a tbl result i =
     (case text_annot_custom a of
        Some custom \<Rightarrow> getitem custom i
      | None \<Rightarrow>
          if text_format a = Some ''full''
          then Inr (Some (test_short_name result @ '' p = ''
                          @ format_float e (fst (default_format_strings a)) (pval result)
                          @ significance_suffix result))
          else if text_format a = None then Inr None
          else if text_format a = Some ''star''
          then bind (pval_annotation_text (return_results e) [result] tbl) (\<lambda>t. Inr (Some t))
          else if text_format a = Some ''simple''
          then Inr (Some (simple_text (format_float e) result (snd (default_format_strings a)) tbl
                            (Some (if show_test_name a
                                   then (case test_short_name_arg a of None \<Rightarrow> [] | Some s \<Rightarrow> s)
                                   else []))))
          else Inl UnboundLocalError)"

subsection \<open>The placement engine\<close>

text \<open>
  The state of the annotation loop: the occupancy stack, the lists \<^verbatim>\<open>y_stack\<close> and
  \<^verbatim>\<open>ymaxs\<close>, and the axes drawn so far.
\<close>

record engine =
  arr :: y_stack_arr
  y_stack :: "real option list"
  ymaxs :: "real option list"
  surface :: axes

text \<open>
  The query of the stack for a pair: the index of the highest stack between the two
  boxes is \<open>xi1\<close> plus the position of the maximum within the selection; the result
  is the height found there and the number of annotations stacked there.
\<close>

definition highest_in_range :: "real \<Rightarrow> real \<Rightarrow> nat \<Rightarrow> y_stack_arr \<Rightarrow> error + real option \<times> nat" where
  "highest_in_range x1 x2 xi1 stack =
     bind (nanargmax (select_range x1 x2 stack)) (\<lambda>k.
     let i_ymax_in_range_x1_x2 = xi1 + k
     in bind (getitem (row_top stack) i_ymax_in_range_x1_x2) (\<lambda>ymax_in_range_x1_x2.
        bind (getitem (row_count stack) i_ymax_in_range_x1_x2) (\<lambda>stacked.
        Inr (ymax_in_range_x1_x2, stacked))))"

text \<open>
  The offset: to the box when only a box is below, between annotations otherwise.
\<close>

definition choose_offset :: "real \<Rightarrow> real \<Rightarrow> nat \<Rightarrow> real" where
  "choose_offset y_offset y_offset_to_box stacked =
     (if stacked = 0 then y_offset_to_box else y_offset)"

text \<open>
  Drawing the bracket at height \<open>y\<close> with tick height \<open>h\<close> and, when there is one, the
  text above it; the result is the new axes and \<^verbatim>\<open>y_top_annot\<close>, the highest y
  consumed. Without a text that is the top of the bracket. With a text it is the
  measured top of the text, or the guess from the font size when the offset is fixed or
  the measurement is NaN.
\<close>

definition draw_annotation ::
  "ext \<Rightarrow> args \<Rightarrow> string option \<Rightarrow> real \<Rightarrow> real \<Rightarrow> real option \<Rightarrow> real \<Rightarrow> axes
     \<Rightarrow> axes \<times> real option" where
  "draw_annotation e a text x1 x2 y h ax =
     (let y_h = map_option (\<lambda>v. v + h) y;
          ax1 = ax\<lparr>plotted := plotted ax @ [([x1, x1, x2, x2], [y, y_h, y_h, y])]\<rparr>
      in case text of
           None \<Rightarrow> (ax1, y_h)
         | Some t \<Rightarrow>
             (let ann = \<lparr>ann_text = t, ann_xy = ((x1 + x2) / 2, y_h),
                         ann_xytext = (0, text_offset a)\<rparr>;
                  ax_t = ax1\<lparr>annotated := annotated ax1 @ [ann]\<rparr>;
                  guessed = map_option (\<lambda>v. guess_top e ax_t (v + text_offset a)) y_h
              in (ax_t,
                  if use_fixed_offset a then guessed
                  else (case annotation_top e ax_t ann of
                          None \<Rightarrow> guessed
                        | Some measured \<Rightarrow> Some measured))))"

text \<open>
  One iteration of the annotation loop for a pair and its result; \<open>tbl\<close> are the
  thresholds, \<open>y_offset\<close> and \<open>y_offset_to_box\<close> the offsets in data coordinates and
  \<open>yrange\<close> the height of the axes.
\<close>

definition annotate_pair ::
  "ext \<Rightarrow> args \<Rightarrow> thresholds \<Rightarrow> real \<Rightarrow> real \<Rightarrow> real
     \<Rightarrow> (box_struct \<times> box_struct) \<times> stat_result \<Rightarrow> engine \<Rightarrow> error + engine" where
  "annotate_pair e a tbl y_offset y_offset_to_box yrange pr st =
     (let box_structs = fst pr; result = snd pr;
          x1 = x (fst box_structs); x2 = x (snd box_structs);
          xi1 = xi (fst box_structs); xi2 = xi (snd box_structs);
          i = i_box_pair (fst box_structs)
      in bind (annotation_text e a tbl result i) (\<lambda>text.
         bind (highest_in_range x1 x2 xi1 (arr st)) (\<lambda>(ymax_in_range_x1_x2, stacked).
         let offset = choose_offset y_offset y_offset_to_box stacked;
             y = map_option (\<lambda>v. v + offset) ymax_in_range_x1_x2;
             h = line_height a * yrange;
             (ax', y_top_annot) = draw_annotation e a text x1 x2 y h (surface st);
             y_stack' = y_stack st @ [y_top_annot]
         in bind (py_max y_stack') (\<lambda>m.
            Inr \<lparr> arr = update_stack x1 x2 xi1 xi2 y_top_annot (arr st),
                  y_stack = y_stack',
                  ymaxs = ymaxs st @ [m],
                  surface = ax' \<rparr>))))"

text \<open>
  The loop over \<^verbatim>\<open>zip(box_struct_pairs, test_result_list)\<close>. An exception leaves the
  axes as the earlier iterations drew them.
\<close>

fun annotate_all ::
  "ext \<Rightarrow> args \<Rightarrow> thresholds \<Rightarrow> real \<Rightarrow> real \<Rightarrow> real
     \<Rightarrow> ((box_struct \<times> box_struct) \<times> stat_result) list \<Rightarrow> engine \<Rightarrow> error option \<times> engine" where
  "annotate_all e a tbl y_offset y_offset_to_box yrange [] st = (None, st)"
| "annotate_all e a tbl y_offset y_offset_to_box yrange (pr # rest) st =
     (case annotate_pair e a tbl y_offset y_offset_to_box yrange pr st of
        Inl err \<Rightarrow> (Some err, st)
      | Inr st' \<Rightarrow> annotate_all e a tbl y_offset y_offset_to_box yrange rest st')"

text \<open>
  The end of the function: \<^verbatim>\<open>y_stack_max = max(ymaxs)\<close> and the new limits.
  matplotlib refuses a NaN limit.
\<close>

definition set_final_ylim :: "args \<Rightarrow> real \<times> real \<Rightarrow> engine \<Rightarrow> error + axes" where
  "set_final_ylim a lims st =
     bind (py_max (ymaxs st)) (\<lambda>y_stack_max.
       if loc a = ''inside''
       then (case y_stack_max of
               None \<Rightarrow> Inl AxisLimitNaN
             | Some m \<Rightarrow> Inr ((surface st)\<lparr>ylim := (fst lims, max (1.03 * m) (snd lims))\<rparr>))
       else if loc a = ''outside''
       then Inr ((surface st)\<lparr>ylim := (fst lims, snd lims)\<rparr>)
       else Inr (surface st))"

subsection \<open>\<^verbatim>\<open>add_stat_annotation\<close>\<close>

text \<open>Everything the function computes before the first drawing.\<close>

record prepared =
  p_thresholds :: thresholds
  p_ylim :: "real \<times> real"
  p_y_offset :: real
  p_y_offset_to_box :: real
  p_box_structs :: "box_struct list"
  p_pairs :: "(box_struct \<times> box_struct) list"
  p_results :: "stat_result list"

definition prepare :: "ext \<Rightarrow> args \<Rightarrow> axes \<Rightarrow> error + prepared" where
  "prepare e a ax0 =
     bind (validate_arguments e a) (\<lambda>_.
     bind (get_correction_method e (comparisons_correction a)) (\<lambda>corr.
     bind (legend_thresholds a (default_thresholds a)) (\<lambda>tbl.
     let lims = ylim ax0; yrange = snd lims - fst lims
     in bind (offsets a yrange) (\<lambda>(y_offset, y_offset_to_box).
        bind (make_box_structs (box_plotter a)) (\<lambda>box_structs.
        bind (make_box_struct_pairs (make_box_names (box_plotter a))
                (box_structs_dic box_structs) 0 (box_pairs a)) (\<lambda>box_struct_pairs.
        let sorted_pairs = sort_box_struct_pairs box_struct_pairs
        in bind (fetch_results e a corr sorted_pairs) (\<lambda>test_result_list.
           Inr \<lparr> p_thresholds = tbl, p_ylim = lims,
                 p_y_offset = y_offset, p_y_offset_to_box = y_offset_to_box,
                 p_box_structs = box_structs,
                 p_pairs = sorted_pairs,
                 p_results = apply_correction corr (alpha a) test_result_list \<rparr>)))))))"

text \<open>
  The state in which the annotation loop starts, and the loop on what was prepared.
\<close>

definition initial_engine :: "args \<Rightarrow> prepared \<Rightarrow> axes \<Rightarrow> engine" where
  "initial_engine a p ax0 =
     \<lparr> arr = init_y_stack_arr (loc a) (p_ylim p) (p_box_structs p),
       y_stack = [], ymaxs = [], surface = ax0 \<rparr>"

definition annotate_prepared :: "ext \<Rightarrow> args \<Rightarrow> prepared \<Rightarrow> axes \<Rightarrow> error option \<times> engine" where
  "annotate_prepared e a p ax0 =
     annotate_all e a (p_thresholds p) (p_y_offset p) (p_y_offset_to_box p)
       (snd (p_ylim p) - fst (p_ylim p)) (zip (p_pairs p) (p_results p))
       (initial_engine a p ax0)"

text \<open>
  The whole call on the axes \<open>ax0\<close>: the returned list of results or the exception
  raised, together with the axes as the call leaves them.
\<close>

definition add_stat_annotation :: "ext \<Rightarrow> args \<Rightarrow> axes \<Rightarrow> (error + stat_result list) \<times> axes" where
  "add_stat_annotation e a ax0 =
     (case prepare e a ax0 of
        Inl err \<Rightarrow> (Inl err, ax0)
      | Inr p \<Rightarrow>
          (case annotate_prepared e a p ax0 of
             (Some err, st) \<Rightarrow> (Inl err, surface st)
           | (None, st) \<Rightarrow>
               (case set_final_ylim a (p_ylim p) st of
                  Inl err \<Rightarrow> (Inl err, surface st)
                | Inr ax' \<Rightarrow> (Inr (p_results p), ax'))))"

subsection \<open>Concrete inputs\<close>

text \<open>
  Collaborators for running the model on concrete inputs: no statistical test is
  available, no correction is applied, the text of an annotation is taken to reach one
  unit above the bracket when measured and one unit above the baseline when guessed.
\<close>

definition example_ext :: ext where
  "example_ext =
     \<lparr> implemented_tests = [],
       get_correction_method = (\<lambda>_. Inr None),
       stat_test = (\<lambda>_ _ _ _ _. Inl (External ''stat_test'')),
       return_results = concat,
       format_float = (\<lambda>f v. f),
       annotation_top = (\<lambda>_ ann. map_option (\<lambda>v. v + 1) (snd (ann_xy ann))),
       guess_top = (\<lambda>_ b. b + 1) \<rparr>"

text \<open>
  Two groups A and B with largest observations 10 and 12, without hue; one observation
  of B is missing, the observations are floats.
\<close>

definition two_groups :: plotter where
  "two_groups =
     \<lparr> group_names = [''A'', ''B''], hue_names = [], hue_offsets = [],
       plot_hues = None, plot_data = [Floats [Some 10, Some 3], Floats [None, Some 12]] \<rparr>"

text \<open>
  Four groups A, B, C and D with largest observations 10, 12, 11 and 9, as floats and as
  integers.
\<close>

definition four_groups :: plotter where
  "four_groups =
     \<lparr> group_names = [''A'', ''B'', ''C'', ''D''], hue_names = [], hue_offsets = [],
       plot_hues = None, plot_data = [Floats [Some 10], Floats [Some 12], Floats [Some 11], Floats [Some 9]] \<rparr>"

definition four_int_groups :: plotter where
  "four_int_groups =
     \<lparr> group_names = [''A'', ''B'', ''C'', ''D''], hue_names = [], hue_offsets = [],
       plot_hues = None, plot_data = [Ints [10], Ints [12], Ints [11], Ints [9]] \<rparr>"

text \<open>
  A call with custom p-values and the default layout inside the axes; the pairs, the
  p-values and the custom texts are set by each use.
\<close>

definition example_args :: args where
  "example_args =
     \<lparr> box_plotter = two_groups, box_pairs = [(Cat ''A'', Cat ''B'')],
       perform_stat_test = False, pvalues = Some [0.5], test_short_name_arg = None,
       test = None, text_format = Some ''star'', pvalue_format_string = None,
       text_annot_custom = Some [None], loc = ''inside'', show_test_name = True,
       pvalue_thresholds = None, comparisons_correction = None, num_comparisons = None,
       use_fixed_offset = False, line_offset_to_box = None, line_offset = None,
       line_height = 0.02, text_offset = 1, verbose = 1, alpha = 0.05 \<rparr>"

text \<open>Axes with the y limits 3 and 13 and nothing drawn.\<close>

definition example_axes :: axes where
  "example_axes = \<lparr> ylim = (3, 13), plotted = [], annotated = [] \<rparr>"

text \<open>
  Two requested pairs on the four groups, the wider one first: (A, C) with custom
  p-value 0.1 and (A, B) with custom p-value 0.2, each annotated with its star text.
\<close>

definition two_pairs_args :: args where
  "two_pairs_args =
     example_args\<lparr> box_plotter := four_groups,
                    box_pairs := [(Cat ''A'', Cat ''C''), (Cat ''A'', Cat ''B'')],
                    pvalues := Some [0.1, 0.2],
                    text_annot_custom := None \<rparr>"

text \<open>
  The box structures of the two groups, and the state in which the annotation loop
  starts on them inside the axes: the stack holds the largest observations, nothing is
  stacked or drawn.
\<close>

definition box_A :: box_struct where
  "box_A = \<lparr>box = Cat ''A'', label = ''A'', x = 0, box_data = Floats [Some 10, Some 3],
             ymax = Some 10, int_typed = False, xi = 0, i_box_pair = 0\<rparr>"

definition box_B :: box_struct where
  "box_B = \<lparr>box = Cat ''B'', label = ''B'', x = 1, box_data = Floats [Some 12],
             ymax = Some 12, int_typed = False, xi = 1, i_box_pair = 0\<rparr>"

definition two_groups_engine :: engine where
  "two_groups_engine =
     \<lparr>arr = \<lparr>int_dtype = False, row_x = [0, 1], row_top = [Some 10, Some 12],
              row_count = [0, 0]\<rparr>,
       y_stack = [], ymaxs = [], surface = example_axes\<rparr>"

text \<open>
  Two groups whose observations are all negative, on axes from -20 to -10.
\<close>

definition negative_groups :: plotter where
  "negative_groups =
     \<lparr> group_names = [''A'', ''B''], hue_names = [], hue_offsets = [],
       plot_hues = None, plot_data = [Floats [Some (-12)], Floats [Some (-10.2)]] \<rparr>"

definition negative_axes :: axes where
  "negative_axes = \<lparr> ylim = (-20, -10), plotted = [], annotated = [] \<rparr>"

text \<open>What the call on the two pairs has prepared when the annotation loop starts.\<close>

definition two_pairs_prepared :: prepared where
  "two_pairs_prepared = projr (prepare example_ext two_pairs_args example_axes)"

text \<open>
  The states of the annotation loop on the two pairs after the first pair processed,
  (A, B), and after the second, (A, C).
\<close>

definition after_first :: engine where
  "after_first =
     projr (annotate_pair example_ext two_pairs_args (p_thresholds two_pairs_prepared)
              (p_y_offset two_pairs_prepared) (p_y_offset_to_box two_pairs_prepared)
              (snd (p_ylim two_pairs_prepared) - fst (p_ylim two_pairs_prepared))
              (zip (p_pairs two_pairs_prepared) (p_results two_pairs_prepared) ! 0)
              (initial_engine two_pairs_args two_pairs_prepared example_axes))"

definition after_second :: engine where
  "after_second =
     projr (annotate_pair example_ext two_pairs_args (p_thresholds two_pairs_prepared)
              (p_y_offset two_pairs_prepared) (p_y_offset_to_box two_pairs_prepared)
              (snd (p_ylim two_pairs_prepared) - fst (p_ylim two_pairs_prepared))
              (zip (p_pairs two_pairs_prepared) (p_results two_pairs_prepared) ! 1)
              after_first)"

text \<open>
  The call on the four groups with integer observations: the pairs (A, B) and (A, C),
  annotated without text.
\<close>

definition int_pairs_args :: args where
  "int_pairs_args =
     example_args\<lparr> box_plotter := four_int_groups,
                    box_pairs := [(Cat ''A'', Cat ''B''), (Cat ''A'', Cat ''C'')],
                    pvalues := Some [0.5, 0.5],
                    text_annot_custom := Some [None, None] \<rparr>"

subsection \<open>Invariants of the annotation loop\<close>


text \<open>
  The shape of the stack the loop relies on for a list of pairs: the x positions are
  strictly increasing, the three rows have the same length, the index \<open>xi\<close> of the
  left box of every pair is the position of its x in the row of positions, and the
  heights of an array of integer dtype are integers.
\<close>

definition geometry_ok :: "y_stack_arr \<Rightarrow> (box_struct \<times> box_struct) list \<Rightarrow> bool" where
  "geometry_ok stack prs \<longleftrightarrow>
     sorted_wrt (<) (row_x stack)
     \<and> length (row_top stack) = length (row_x stack)
     \<and> length (row_count stack) = length (row_x stack)
     \<and> (\<forall>pr\<in>set prs. xi (fst pr) < length (row_x stack)
                       \<and> row_x stack ! xi (fst pr) = x (fst pr))
     \<and> (int_dtype stack \<longrightarrow> (\<forall>t\<in>set (row_top stack). \<exists>k. t = Some (real_of_int k)))"

text \<open>
  The order in which a height of the stack may change: a NaN may become anything, a
  number may only become a number that is at least as large.
\<close>

definition nan_le :: "real option \<Rightarrow> real option \<Rightarrow> bool" where
  "nan_le s t = (case s of None \<Rightarrow> True | Some u \<Rightarrow> (case t of None \<Rightarrow> False | Some v \<Rightarrow> u \<le> v))"

text \<open>
  The assumption on the two measurements of matplotlib: the measured top of a text is
  not below the point it is anchored at, the top of the bracket, and the guessed top is
  not below the top of the bracket either. The text is drawn above its anchor
  (\<^verbatim>\<open>va='bottom'\<close>, offset \<^verbatim>\<open>text_offset\<close> points).
\<close>

definition text_above_bracket :: "ext \<Rightarrow> args \<Rightarrow> bool" where
  "text_above_bracket e a \<longleftrightarrow>
     (\<forall>ax ann v t. snd (ann_xy ann) = Some v \<and> annotation_top e ax ann = Some t \<longrightarrow> v \<le> t)
     \<and> (\<forall>ax v. v \<le> guess_top e ax (v + text_offset a))"

section \<open>Properties of the significance formatter\<close>

lemma sort_values_desc_hd:
  assumes "tbl \<noteq> []"
  shows "\<exists>s rest. sort_values_desc tbl = Inr ((Max (fst ` set tbl), s) # rest)"
proof -
  let ?ys = "rev (sort_key fst tbl)"
  have "length ?ys = length tbl" by simp
  then have "?ys \<noteq> []" using assms by (metis length_0_conv)
  then obtain c s rest where ys: "?ys = (c, s) # rest"
    by (metis list.exhaust prod.exhaust)
  have "sorted_wrt (\<lambda>a b. b \<le> a) (map fst ?ys)"
    by (simp add: rev_map[symmetric] sorted_wrt_rev del: rev_map)
  then have le: "\<forall>t \<in> set rest. fst t \<le> c"
    unfolding ys by simp
  have set_eq: "set tbl = insert (c, s) (set rest)"
    using arg_cong[OF ys, of set] by simp
  have "Max (fst ` set tbl) = c"
  proof (rule Max_eqI)
    show "finite (fst ` set tbl)" by simp
    show "c \<in> fst ` set tbl" unfolding set_eq by simp
    fix y assume "y \<in> fst ` set tbl"
    then show "y \<le> c" unfolding set_eq using le by auto
  qed
  then show ?thesis
    using assms ys by (simp add: sort_values_desc_def)
qed

lemma assign_labels_none:
  "sorted_wrt (\<lambda>a b. b < a) (map fst ts) \<Longrightarrow> \<forall>t\<in>set ts. fst t < bound \<Longrightarrow>
   \<forall>t\<in>set ts. fst t < p \<Longrightarrow> assign_labels bound ts [p] [a] = Inr [a]"
proof (induction ts arbitrary: bound)
  case Nil
  then show ?case by simp
next
  case (Cons t ts)
  obtain ub l where t: "t = (ub, l)" by (cases t)
  have "assign_labels ub ts [p] [a] = Inr [a]"
    using Cons.prems by (intro Cons.IH) (auto simp: t)
  then show ?case using Cons.prems by (simp add: t)
qed

lemma assign_labels_tightest:
  "sorted_wrt (\<lambda>a b. b < a) (map fst ts) \<Longrightarrow> \<forall>t\<in>set ts. fst t < bound \<Longrightarrow>
   (c, s) \<in> set ts \<Longrightarrow> p \<le> c \<Longrightarrow> \<forall>t\<in>set ts. p \<le> fst t \<longrightarrow> c \<le> fst t \<Longrightarrow>
   assign_labels bound ts [p] [a] = Inr [s]"
proof (induction ts arbitrary: bound a)
  case Nil
  then show ?case by simp
next
  case (Cons t ts)
  obtain ub l where t: "t = (ub, l)" by (cases t)
  have ok: "ub < bound" using Cons.prems(2) by (simp add: t)
  have srt: "sorted_wrt (\<lambda>a b. b < a) (map fst ts)" and below: "\<forall>u\<in>set ts. fst u < ub"
    using Cons.prems(1) by (auto simp: t)
  show ?case
  proof (cases "(c, s) \<in> set ts")
    case True
    have "assign_labels ub ts [p] [if p \<le> ub then l else a] = Inr [s]"
      using srt below True Cons.prems(4,5) by (intro Cons.IH) auto
    then show ?thesis using ok by (simp add: t)
  next
    case False
    then have eq: "ub = c" "l = s" using Cons.prems(3) by (auto simp: t)
    have "\<forall>u\<in>set ts. fst u < p"
    proof
      fix u assume u: "u \<in> set ts"
      show "fst u < p"
      proof (rule ccontr)
        assume "\<not> fst u < p"
        then have "c \<le> fst u" using Cons.prems(5) u by auto
        then show False using below u eq by auto
      qed
    qed
    then have "assign_labels ub ts [p] [s] = Inr [s]"
      using srt below by (intro assign_labels_none) auto
    then show ?thesis using ok Cons.prems(4) eq by (simp add: t)
  qed
qed

lemma sort_values_desc_props:
  assumes "tbl \<noteq> []" "distinct (map fst tbl)"
  shows "\<exists>ys. sort_values_desc tbl = Inr ys \<and> set ys = set tbl \<and> sorted_wrt (\<lambda>a b. b < a) (map fst ys)"
proof -
  let ?xs = "sort_key fst tbl"
  have "sorted (map fst ?xs)" "distinct (map fst ?xs)"
    using assms(2) by (simp_all add: distinct_map)
  then have "sorted_wrt (<) (map fst ?xs)" 
    by (simp add: strict_sorted_iff)
  then have "sorted_wrt (\<lambda>a b. b < a) (map fst (rev ?xs))"
    by (simp add: rev_map[symmetric] sorted_wrt_rev del: rev_map)
  then show ?thesis using assms(1) by (simp add: sort_values_desc_def)
qed


text \<open>
  C4 (as amended). For a non-empty table of distinct cutoffs, all in the interval from 0
  (inclusive) to 1.1 (exclusive), and a result with empty significance suffix: the
  p-value 0 gets the label of the smallest cutoff; the p-value 1 gets the label of the
  smallest cutoff that is at least 1, and the empty string when every cutoff is below 1.
\<close>

theorem star_labels_at_zero_and_one:
  assumes "tbl \<noteq> []" and "distinct (map fst tbl)"
    and "\<forall>t\<in>set tbl. 0 \<le> fst t \<and> fst t < 1.1"
    and "significance_suffix r = []"
  shows "(\<forall>s. (Min (fst ` set tbl), s) \<in> set tbl \<longrightarrow>
            pval_annotation_text rr [r\<lparr>pval := 0\<rparr>] tbl = Inr (rr [s]))
       \<and> (\<forall>c s. (c, s) \<in> set tbl \<and> 1 \<le> c \<and> (\<forall>t\<in>set tbl. 1 \<le> fst t \<longrightarrow> c \<le> fst t) \<longrightarrow>
            pval_annotation_text rr [r\<lparr>pval := 1\<rparr>] tbl = Inr (rr [s]))
       \<and> ((\<forall>t\<in>set tbl. fst t < 1) \<longrightarrow>
            pval_annotation_text rr [r\<lparr>pval := 1\<rparr>] tbl = Inr (rr [[]]))"
proof -
  obtain ys where ys: "sort_values_desc tbl = Inr ys" "set ys = set tbl"
      "sorted_wrt (\<lambda>a b. b < a) (map fst ys)"
    using sort_values_desc_props[OF assms(1,2)] by blast
  have bound: "\<forall>t\<in>set ys. fst t < 1.1" using assms(3) ys(2) by simp
  have run: "pval_annotation_text rr [r\<lparr>pval := p\<rparr>] tbl = Inr (rr [s])"
    if "assign_labels 1.1 ys [p] [[]] = Inr [s]" for p s
    using that ys(1) assms(4) by (simp add: pval_annotation_text_def)
  have zero: "pval_annotation_text rr [r\<lparr>pval := 0\<rparr>] tbl = Inr (rr [s])"
    if "(Min (fst ` set tbl), s) \<in> set tbl" for s
  proof (rule run, rule assign_labels_tightest[OF ys(3) bound])
    show "(Min (fst ` set tbl), s) \<in> set ys" using that ys(2) by simp
    show "0 \<le> Min (fst ` set tbl)" using assms(1,3) by simp
    show "\<forall>t\<in>set ys. 0 \<le> fst t \<longrightarrow> Min (fst ` set tbl) \<le> fst t"
      using ys(2) by simp
  qed
  have one: "pval_annotation_text rr [r\<lparr>pval := 1\<rparr>] tbl = Inr (rr [s])"
    if "(c, s) \<in> set tbl" "1 \<le> c" "\<forall>t\<in>set tbl. 1 \<le> fst t \<longrightarrow> c \<le> fst t" for c s
    by (rule run, rule assign_labels_tightest[OF ys(3) bound, of c]) (use that ys(2) in simp_all)
  have none: "pval_annotation_text rr [r\<lparr>pval := 1\<rparr>] tbl = Inr (rr [[]])"
    if "\<forall>t\<in>set tbl. fst t < 1"
    by (rule run, rule assign_labels_none[OF ys(3) bound]) (use that ys(2) in simp)
  show ?thesis using zero one none by blast
qed

theorem star_labels_at_zero_and_one_witness:
  "pval_annotation_text id [(StatResult ''t'' ''t'' None None 0.3 :: stat_result)\<lparr>pval := 0\<rparr>]
      [(0.0001, ''****''), (0.001, ''***''), (0.01, ''**''), (0.05, ''*''), (1, ''ns'')] = Inr [''****'']
   \<and> pval_annotation_text id [(StatResult ''t'' ''t'' None None 0.3 :: stat_result)\<lparr>pval := 1\<rparr>]
      [(0.0001, ''****''), (0.001, ''***''), (0.01, ''**''), (0.05, ''*''), (1, ''ns'')] = Inr [''ns'']
   \<and> pval_annotation_text id [(StatResult ''t'' ''t'' None None 0.3 :: stat_result)\<lparr>pval := 1\<rparr>]
      [(0.00001, ''1e-5''), (0.0001, ''1e-4''), (0.001, ''0.001''), (0.01, ''0.01'')] = Inr [[]]"
proof -
  let ?r = "StatResult ''t'' ''t'' None None 0.3 :: stat_result"
  let ?star = "[(0.0001::real, ''****''), (0.001, ''***''), (0.01, ''**''), (0.05, ''*''), (1, ''ns'')]"
  let ?simple = "[(0.00001::real, ''1e-5''), (0.0001, ''1e-4''), (0.001, ''0.001''), (0.01, ''0.01'')]"
  have m: "Min (fst ` set ?star) = 0.0001" by simp
  have s: "significance_suffix ?r = []" by (simp add: StatResult_def)
  have h1: "?star \<noteq> []" and h2: "distinct (map fst ?star)"
    and h3: "\<forall>t\<in>set ?star. 0 \<le> fst t \<and> fst t < 1.1" by simp_all
  have k1: "?simple \<noteq> []" and k2: "distinct (map fst ?simple)"
    and k3: "\<forall>t\<in>set ?simple. 0 \<le> fst t \<and> fst t < 1.1" by simp_all
  have a: "pval_annotation_text id [?r\<lparr>pval := 0\<rparr>] ?star = Inr [''****'']"
    using star_labels_at_zero_and_one[OF h1 h2 h3 s, of id, THEN conjunct1, rule_format, of "''****''"] m
    by simp
  have b: "pval_annotation_text id [?r\<lparr>pval := 1\<rparr>] ?star = Inr [''ns'']"
    using star_labels_at_zero_and_one[OF h1 h2 h3 s, of id, THEN conjunct2, THEN conjunct1,
            rule_format, of 1 "''ns''"]
    by simp
  have c: "pval_annotation_text id [?r\<lparr>pval := 1\<rparr>] ?simple = Inr [[]]"
    using star_labels_at_zero_and_one[OF k1 k2 k3 s, of id, THEN conjunct2, THEN conjunct2]
    by simp
  show ?thesis using a b c by blast
qed

text \<open>
  The claim as stated fails in three ways: a strictly decreasing table whose largest
  cutoff is 2 raises the assertion error; with the cutoffs 1.05 and 1 the p-value 1 gets
  the label of the cutoff 1, not of the largest cutoff; with a negative cutoff the
  p-value 0 does not get the label of the smallest cutoff.
\<close>

theorem star_labels_claim_counterexample:
  "pval_annotation_text id [(StatResult ''t'' ''t'' None None 0 :: stat_result)]
      [(2, ''ns''), (0.05, ''*'')] = Inl AssertionError
   \<and> pval_annotation_text id [(StatResult ''t'' ''t'' None None 1 :: stat_result)]
      [(1.05, ''a''), (1, ''b'')] = Inr [''b'']
   \<and> pval_annotation_text id [(StatResult ''t'' ''t'' None None 0 :: stat_result)]
      [(0.05, ''*''), (-1, ''neg'')] = Inr [''*'']"
  by (simp add: pval_annotation_text_def sort_values_desc_def StatResult_def)

text \<open>
  C10. Whenever the largest cutoff of a (non-empty) threshold table is at least 1.1,
  \<open>pval_annotation_text\<close> fails with the assertion error, whatever the results and
  however the rest of the table looks: the first row examined is the largest cutoff and
  the bound it is compared with is the seed 1.1.
\<close>

theorem pval_annotation_text_seed_rejects:
  assumes "tbl \<noteq> []" and "1.1 \<le> Max (fst ` set tbl)"
  shows "pval_annotation_text rr results tbl = Inl AssertionError"
proof -
  obtain s rest where "sort_values_desc tbl = Inr ((Max (fst ` set tbl), s) # rest)"
    using sort_values_desc_hd[OF assms(1)] by blast
  then show ?thesis
    using assms(2) by (simp add: pval_annotation_text_def)
qed

theorem pval_annotation_text_seed_rejects_witness:
  "pval_annotation_text id [StatResult ''t'' ''t'' None None 0.5 :: stat_result]
      [(0.05, ''*''), (1.1, ''ns'')] = Inl AssertionError"
proof -
  have "Max (fst ` set [(0.05::real, ''*''), (1.1, ''ns'')]) = 1.1" by simp
  then show ?thesis
    using pval_annotation_text_seed_rejects
            [of "[(0.05, ''*''), (1.1, ''ns'')]" id
                "[StatResult ''t'' ''t'' None None 0.5 :: stat_result]"]
    by simp
qed
section \<open>Resolving pairs\<close>

lemma bind_Inr [simp]: "bind (Inr v) f = f v"
  by (simp add: bind_def)

lemma bind_Inl [simp]: "bind (Inl err) f = Inl err"
  by (simp add: bind_def)

lemma bind_eq_Inr: "bind m f = Inr r \<longleftrightarrow> (\<exists>v. m = Inr v \<and> f v = Inr r)"
  by (cases m) simp_all

lemma index_of_Inr: "index_of zs v = Inr i \<Longrightarrow> i < length zs \<and> zs ! i = v"
proof (induction zs arbitrary: i)
  case Nil
  then show ?case by simp
next
  case (Cons z zs)
  then show ?case
    by (cases "z = v") (auto simp: bind_eq_Inr)
qed

lemma index_of_mem: "v \<in> set zs \<Longrightarrow> \<exists>i. index_of zs v = Inr i"
  by (induction zs) auto

lemma map_err_Inr: "map_err f zs = Inr ys \<Longrightarrow> list_all2 (\<lambda>z y. f z = Inr y) zs ys"
  by (induction zs arbitrary: ys) (auto simp: bind_eq_Inr)

lemma map_enumerate_snd: "map (\<lambda>(i, b). f b) (enumerate n ys) = map f ys"
  by (induction ys arbitrary: n) auto

lemma make_box_struct_box: "make_box_struct pl name = Inr b \<Longrightarrow> box b = name"
  by (auto simp: make_box_struct_def bind_eq_Inr)

lemma make_box_structs_names:
  assumes "make_box_structs pl = Inr bs"
  shows "box ` set bs = set (make_box_names pl)"
proof -
  obtain bs0 where bs0: "map_err (make_box_struct pl) (make_box_names pl) = Inr bs0"
    and bs: "bs = map (\<lambda>(i, b). b\<lparr>xi := i\<rparr>) (enumerate 0 (sort_key x bs0))"
    using assms by (auto simp: make_box_structs_def bind_eq_Inr)
  have "list_all2 (\<lambda>n b. box b = n) (make_box_names pl) bs0"
    using map_err_Inr[OF bs0] by (rule list_all2_mono) (simp add: make_box_struct_box)
  then have "map box bs0 = make_box_names pl"
    by (induction rule: list_all2_induct) auto
  then have names: "box ` set bs0 = set (make_box_names pl)"
    by (metis set_map)
  have "map box bs = map box (sort_key x bs0)"
    unfolding bs using map_enumerate_snd[of box 0 "sort_key x bs0"]
    by (simp add: o_def split_def)
  then have "box ` set bs = box ` set (sort_key x bs0)"
    by (metis set_map)
  then show ?thesis using names by simp
qed

lemma box_structs_dic_None: "box_structs_dic bs b = None \<longleftrightarrow> b \<notin> box ` set bs"
  by (auto simp: box_structs_dic_def map_of_eq_None_iff image_iff)

lemma make_box_struct_pairs_invalid:
  assumes "\<forall>b\<in>set names. dic b \<noteq> None"
    and "\<exists>bp\<in>set bps. fst bp \<notin> set names \<or> snd bp \<notin> set names"
  shows "make_box_struct_pairs names dic i bps = Inl InvalidBoxPair"
  using assms(2)
proof (induction bps arbitrary: i)
  case Nil
  then show ?case by simp
next
  case (Cons bp bps)
  obtain b1 b2 where bp: "bp = (b1, b2)" by (cases bp)
  show ?case
  proof (cases "b1 \<in> set names \<and> b2 \<in> set names")
    case False
    then show ?thesis by (simp add: bp)
  next
    case True
    then have "dic b1 \<noteq> None" "dic b2 \<noteq> None"
      using assms(1) by blast+
    then obtain s1 s2 where "dic b1 = Some s1" "dic b2 = Some s2"
      by blast
    moreover have "make_box_struct_pairs names dic (Suc i) bps = Inl InvalidBoxPair"
      using Cons True by (auto simp: bp)
    ultimately show ?thesis using True by (simp add: bp Let_def)
  qed
qed


lemma invalid_pair_key:
  assumes "\<exists>bp\<in>set (box_pairs a). fst bp \<notin> set (make_box_names (box_plotter a))
             \<or> snd bp \<notin> set (make_box_names (box_plotter a))"
    and "make_box_structs (box_plotter a) = Inr bs"
  shows "make_box_struct_pairs (make_box_names (box_plotter a)) (box_structs_dic bs) 0 (box_pairs a)
           = Inl InvalidBoxPair"
proof (rule make_box_struct_pairs_invalid[OF _ assms(1)])
  show "\<forall>b\<in>set (make_box_names (box_plotter a)). box_structs_dic bs b \<noteq> None"
    using make_box_structs_names[OF assms(2)] by (simp add: box_structs_dic_None)
qed

text \<open>
  C9. When some requested pair names a box that is not among the box names of the
  plot geometry, the call ends with an exception and leaves the axes exactly as they
  were: nothing is drawn. When the argument validation, the correction look-up, the
  legend, the offsets and the box structures, which all come before the pairs are
  resolved, succeed, the exception is the invalid-pair error.
\<close>

theorem invalid_pair_raises_and_draws_nothing:
  assumes "\<exists>bp\<in>set (box_pairs a). fst bp \<notin> set (make_box_names (box_plotter a))
             \<or> snd bp \<notin> set (make_box_names (box_plotter a))"
  shows "(\<exists>err. add_stat_annotation e a ax0 = (Inl err, ax0))
       \<and> (\<forall>u corr tbl off bs.
             validate_arguments e a = Inr u
             \<and> get_correction_method e (comparisons_correction a) = Inr corr
             \<and> legend_thresholds a (default_thresholds a) = Inr tbl
             \<and> offsets a (snd (ylim ax0) - fst (ylim ax0)) = Inr off
             \<and> make_box_structs (box_plotter a) = Inr bs
           \<longrightarrow> add_stat_annotation e a ax0 = (Inl InvalidBoxPair, ax0))"
proof -
  note key = invalid_pair_key[OF assms]
  have "\<exists>err. prepare e a ax0 = Inl err"
    by (auto simp: prepare_def bind_def Let_def key split: sum.splits prod.splits)
  then have first: "\<exists>err. add_stat_annotation e a ax0 = (Inl err, ax0)"
    by (auto simp: add_stat_annotation_def)
  have second: "add_stat_annotation e a ax0 = (Inl InvalidBoxPair, ax0)"
    if "validate_arguments e a = Inr u"
      "get_correction_method e (comparisons_correction a) = Inr corr"
      "legend_thresholds a (default_thresholds a) = Inr tbl"
      "offsets a (snd (ylim ax0) - fst (ylim ax0)) = Inr off"
      "make_box_structs (box_plotter a) = Inr bs" for u corr tbl off bs
  proof -
    have "prepare e a ax0 = Inl InvalidBoxPair"
      using that key[OF that(5)] by (simp add: prepare_def Let_def split: prod.splits)
    then show ?thesis by (simp add: add_stat_annotation_def)
  qed
  show ?thesis using first second by blast
qed


theorem invalid_pair_raises_and_draws_nothing_witness:
  "add_stat_annotation example_ext (example_args\<lparr>box_pairs := [(Cat ''A'', Cat ''C'')]\<rparr>) example_axes
     = (Inl InvalidBoxPair, example_axes)"
proof -
  let ?a = "example_args\<lparr>box_pairs := [(Cat ''A'', Cat ''C'')]\<rparr>"
  have h: "\<exists>bp\<in>set (box_pairs ?a). fst bp \<notin> set (make_box_names (box_plotter ?a))
             \<or> snd bp \<notin> set (make_box_names (box_plotter ?a))"
    by (simp add: example_args_def two_groups_def make_box_names_def)
  have v: "validate_arguments example_ext ?a = Inr ()"
    by (simp add: validate_arguments_def example_args_def assert_is_in_def bind_def)
  have c: "get_correction_method example_ext (comparisons_correction ?a) = Inr None"
    by (simp add: example_ext_def)
  have l: "\<exists>tbl. legend_thresholds ?a (default_thresholds ?a) = Inr tbl"
    by (simp add: legend_thresholds_def default_thresholds_def example_args_def sort_values_desc_def)
  have ofs: "offsets ?a (snd (ylim example_axes) - fst (ylim example_axes)) = Inr (0.5, 0.6)"
    by (simp add: offsets_def example_args_def example_axes_def)
  have g: "\<exists>bs. make_box_structs (box_plotter ?a) = Inr bs"
    by (simp add: make_box_structs_def make_box_struct_def make_box_names_def
          find_x_position_box_def get_box_data_def getitem_def bind_def
          example_args_def two_groups_def)
  show ?thesis
    using invalid_pair_raises_and_draws_nothing[OF h, of example_ext example_axes] v c l ofs g
    by blast
qed


section \<open>Order of processing\<close>

lemma make_box_struct_pairs_Inr:
  "make_box_struct_pairs names dic i bps = Inr pairs \<Longrightarrow>
   length pairs = length bps \<and>
   (\<forall>k<length bps. fst (bps ! k) \<in> set names \<and> snd (bps ! k) \<in> set names \<and>
      (\<exists>s1 s2. dic (fst (bps ! k)) = Some s1 \<and> dic (snd (bps ! k)) = Some s2 \<and>
         pairs ! k = order_pair (i + k) s1 s2))"
proof (induction bps arbitrary: i pairs)
  case Nil
  then show ?case by simp
next
  case (Cons bp bps)
  obtain b1 b2 where bp: "bp = (b1, b2)" by (cases bp)
  from Cons.prems obtain s1 s2 rest where
    valid: "b1 \<in> set names" "b2 \<in> set names" and
    dic: "dic b1 = Some s1" "dic b2 = Some s2" and
    rest: "make_box_struct_pairs names dic (Suc i) bps = Inr rest" and
    pairs: "pairs = order_pair i s1 s2 # rest"
    by (auto simp: bp Let_def bind_eq_Inr split: if_splits option.splits)
  note IH = Cons.IH[OF rest]
  have len: "length pairs = length (bp # bps)" using IH pairs by simp
  have "fst ((bp # bps) ! k) \<in> set names \<and> snd ((bp # bps) ! k) \<in> set names \<and>
      (\<exists>s1 s2. dic (fst ((bp # bps) ! k)) = Some s1 \<and> dic (snd ((bp # bps) ! k)) = Some s2 \<and>
         pairs ! k = order_pair (i + k) s1 s2)" if k: "k < length (bp # bps)" for k
  proof (cases k)
    case 0
    then show ?thesis using valid dic pairs by (simp add: bp)
  next
    case (Suc m)
    then have "m < length bps" using k by simp
    then show ?thesis using IH Suc pairs by simp
  qed
  then show ?case using len by blast
qed

lemma order_pair_props:
  "i_box_pair (fst (order_pair i s1 s2)) = i"
  "i_box_pair (snd (order_pair i s1 s2)) = i"
  "x (fst (order_pair i s1 s2)) \<le> x (snd (order_pair i s1 s2))"
  "{box (fst (order_pair i s1 s2)), box (snd (order_pair i s1 s2))} = {box s1, box s2}"
  by (auto simp: order_pair_def Let_def)

lemma order_pair_members:
  "\<exists>u v. {u, v} = {s1, s2} \<and> order_pair i s1 s2 = (u\<lparr>i_box_pair := i\<rparr>, v\<lparr>i_box_pair := i\<rparr>)"
  by (auto simp: order_pair_def Let_def)

lemma insort_key_tie_order:
  assumes "sorted_wrt (\<lambda>u v. f u \<le> f v \<and> (f u = f v \<longrightarrow> g u < g v)) ys"
    and "\<forall>y\<in>set ys. g z < g y"
  shows "sorted_wrt (\<lambda>u v. f u \<le> f v \<and> (f u = f v \<longrightarrow> g u < g v)) (insort_key f z ys)"
  using assms
proof (induction ys)
  case Nil
  then show ?case by simp
next
  case (Cons y ys)
  show ?case
  proof (cases "f z \<le> f y")
    case True
    then show ?thesis using Cons.prems by (auto simp: less_le)
  next
    case False
    then show ?thesis using Cons by (auto simp: set_insort_key)
  qed
qed

lemma sort_key_tie_order:
  fixes f :: "'a \<Rightarrow> real" and g :: "'a \<Rightarrow> nat"
  assumes "sorted_wrt (\<lambda>u v. g u < g v) zs"
  shows "sorted_wrt (\<lambda>u v. f u \<le> f v \<and> (f u = f v \<longrightarrow> g u < g v)) (sort_key f zs)"
  using assms
proof (induction zs)
  case Nil
  then show ?case by simp
next
  case (Cons z zs)
  then show ?case by (auto intro!: insort_key_tie_order)
qed


lemma prepare_Inr:
  assumes "prepare e a ax0 = Inr p"
  obtains corr tbl yo yob bs pairs rs where
    "validate_arguments e a = Inr ()"
    "get_correction_method e (comparisons_correction a) = Inr corr"
    "legend_thresholds a (default_thresholds a) = Inr tbl"
    "offsets a (snd (ylim ax0) - fst (ylim ax0)) = Inr (yo, yob)"
    "make_box_structs (box_plotter a) = Inr bs"
    "make_box_struct_pairs (make_box_names (box_plotter a)) (box_structs_dic bs) 0 (box_pairs a)
       = Inr pairs"
    "fetch_results e a corr (sort_box_struct_pairs pairs) = Inr rs"
    "p = \<lparr> p_thresholds = tbl, p_ylim = ylim ax0, p_y_offset = yo, p_y_offset_to_box = yob,
           p_box_structs = bs, p_pairs = sort_box_struct_pairs pairs,
           p_results = apply_correction corr (alpha a) rs \<rparr>"
  using assms
  by (auto simp: prepare_def bind_eq_Inr Let_def split: prod.splits)

lemma zip_update_map:
  assumes "\<And>s r. f (g s r) = f r"
  shows "map (f \<circ> (\<lambda>(s, r). g s r)) (zip ss rs) @ map f (drop (length ss) rs) = map f rs"
proof (induction rs arbitrary: ss)
  case Nil
  then show ?case by simp
next
  case (Cons r rs)
  then show ?case using assms by (cases ss) simp_all
qed

lemma apply_correction_keeps:
  "map box1 (apply_correction corr al rs) = map box1 rs"
  "map box2 (apply_correction corr al rs) = map box2 rs"
  "map pval (apply_correction corr al rs) = map pval rs"
  by (simp_all add: apply_correction_def Let_def zip_update_map split: option.splits)

lemma apply_correction_length: "length (apply_correction corr al rs) = length rs"
  using arg_cong[OF apply_correction_keeps(3), of length corr al rs] by simp

lemma make_result_Inr:
  assumes "make_result e a corr n pr = Inr r"
  shows "box1 r = Some (box (fst pr))" and "box2 r = Some (box (snd pr))"
    and "\<not> perform_stat_test a \<Longrightarrow>
           \<exists>ps. pvalues a = Some ps \<and> i_box_pair (fst pr) < length ps \<and> pval r = ps ! i_box_pair (fst pr)"
  using assms
  by (auto simp: make_result_def Let_def bind_eq_Inr getitem_def StatResult_def
           split: if_splits option.splits)

lemma fetch_results_Inr:
  assumes "fetch_results e a corr prs = Inr rs"
  shows "length rs = length prs"
    and "\<forall>k<length prs. make_result e a corr (length prs) (prs ! k) = Inr (rs ! k)"
  using map_err_Inr[OF assms[unfolded fetch_results_def]]
  by (auto simp: list_all2_conv_all_nth)


lemma box_structs_dic_Some:
  assumes "box_structs_dic bs b = Some s"
  shows "box s = b" and "s \<in> set bs"
  using map_of_SomeD[OF assms[unfolded box_structs_dic_def]] by auto

lemma resolved_pair_facts:
  assumes "make_box_struct_pairs names (box_structs_dic bs) 0 bps = Inr pairs"
    and "pr \<in> set pairs"
  obtains j s1 s2 where "j < length bps" "pairs ! j = pr"
    "box_structs_dic bs (fst (bps ! j)) = Some s1"
    "box_structs_dic bs (snd (bps ! j)) = Some s2"
    "pr = order_pair j s1 s2"
proof -
  note R = make_box_struct_pairs_Inr[OF assms(1)]
  from assms(2) obtain j where j: "j < length pairs" "pairs ! j = pr"
    by (auto simp: in_set_conv_nth)
  then have "j < length bps" using R by simp
  with R j obtain s1 s2 where "box_structs_dic bs (fst (bps ! j)) = Some s1"
    "box_structs_dic bs (snd (bps ! j)) = Some s2" "pr = order_pair j s1 s2"
    by fastforce
  then show ?thesis using that j \<open>j < length bps\<close> by blast
qed

lemma resolved_pairs_indices:
  assumes "make_box_struct_pairs names dic 0 bps = Inr pairs"
  shows "map (i_box_pair \<circ> fst) pairs = [0..<length bps]"
proof (rule nth_equalityI)
  note R = make_box_struct_pairs_Inr[OF assms]
  show "length (map (i_box_pair \<circ> fst) pairs) = length [0..<length bps]"
    using R by simp
  fix k assume "k < length (map (i_box_pair \<circ> fst) pairs)"
  then have k: "k < length bps" using R by simp
  then obtain s1 s2 where "pairs ! k = order_pair (0 + k) s1 s2" using R by blast
  then show "map (i_box_pair \<circ> fst) pairs ! k = [0..<length bps] ! k"
    using k R by (simp add: order_pair_props)
qed

lemma sorted_pairs_order:
  assumes "make_box_struct_pairs names dic 0 bps = Inr pairs"
  shows "sorted_wrt (\<lambda>u v. pair_distance u \<le> pair_distance v \<and>
            (pair_distance u = pair_distance v \<longrightarrow> i_box_pair (fst u) < i_box_pair (fst v)))
          (sort_box_struct_pairs pairs)"
proof -
  have "sorted_wrt (<) (map (i_box_pair \<circ> fst) pairs)"
    unfolding resolved_pairs_indices[OF assms] by simp
  then have "sorted_wrt (\<lambda>u v. (i_box_pair \<circ> fst) u < (i_box_pair \<circ> fst) v) pairs"
    by (simp add: sorted_wrt_map)
  from sort_key_tie_order[OF this, of pair_distance]
  show ?thesis by (simp add: sort_box_struct_pairs_def)
qed

lemma sorted_pairs_permutation:
  assumes "make_box_struct_pairs names dic 0 bps = Inr pairs"
  shows "length (sort_box_struct_pairs pairs) = length bps"
    and "distinct (map (i_box_pair \<circ> fst) (sort_box_struct_pairs pairs))"
    and "set (map (i_box_pair \<circ> fst) (sort_box_struct_pairs pairs)) = {0..<length bps}"
proof -
  note idx = resolved_pairs_indices[OF assms]
  show "length (sort_box_struct_pairs pairs) = length bps"
    using make_box_struct_pairs_Inr[OF assms] by (simp add: sort_box_struct_pairs_def)
  have "distinct (map (i_box_pair \<circ> fst) pairs)" unfolding idx by simp
  then show "distinct (map (i_box_pair \<circ> fst) (sort_box_struct_pairs pairs))"
    by (simp add: distinct_map sort_box_struct_pairs_def)
  have "set (map (i_box_pair \<circ> fst) (sort_box_struct_pairs pairs))
          = set (map (i_box_pair \<circ> fst) pairs)"
    by (simp add: sort_box_struct_pairs_def)
  then show "set (map (i_box_pair \<circ> fst) (sort_box_struct_pairs pairs)) = {0..<length bps}"
    unfolding idx by simp
qed

lemma draw_annotation_plotted:
  "map fst (plotted (fst (draw_annotation e a text x1 x2 y h ax)))
     = map fst (plotted ax) @ [[x1, x1, x2, x2]]"
  by (simp add: draw_annotation_def Let_def split: option.splits)

lemma annotate_pair_Inr:
  assumes "annotate_pair e a tbl yo yob yr pr st = Inr st'"
  obtains tx top0 stacked m where
    "annotation_text e a tbl (snd pr) (i_box_pair (fst (fst pr))) = Inr tx"
    "highest_in_range (x (fst (fst pr))) (x (snd (fst pr))) (xi (fst (fst pr))) (arr st)
       = Inr (top0, stacked)"
    "py_max (y_stack st @ [snd (draw_annotation e a tx (x (fst (fst pr))) (x (snd (fst pr)))
         (map_option (\<lambda>v. v + choose_offset yo yob stacked) top0) (line_height a * yr) (surface st))])
       = Inr m"
    "st' = \<lparr> arr = update_stack (x (fst (fst pr))) (x (snd (fst pr))) (xi (fst (fst pr)))
                    (xi (snd (fst pr)))
                    (snd (draw_annotation e a tx (x (fst (fst pr))) (x (snd (fst pr)))
                       (map_option (\<lambda>v. v + choose_offset yo yob stacked) top0)
                       (line_height a * yr) (surface st)))
                    (arr st),
             y_stack = y_stack st @ [snd (draw_annotation e a tx (x (fst (fst pr)))
                       (x (snd (fst pr)))
                       (map_option (\<lambda>v. v + choose_offset yo yob stacked) top0)
                       (line_height a * yr) (surface st))],
             ymaxs = ymaxs st @ [m],
             surface = fst (draw_annotation e a tx (x (fst (fst pr))) (x (snd (fst pr)))
                       (map_option (\<lambda>v. v + choose_offset yo yob stacked) top0)
                       (line_height a * yr) (surface st)) \<rparr>"
proof -
  let ?x1 = "x (fst (fst pr))" and ?x2 = "x (snd (fst pr))"
  from assms obtain tx hv m where
    t: "annotation_text e a tbl (snd pr) (i_box_pair (fst (fst pr))) = Inr tx" and
    h: "highest_in_range ?x1 ?x2 (xi (fst (fst pr))) (arr st) = Inr hv" and
    m: "py_max (y_stack st @ [snd (draw_annotation e a tx ?x1 ?x2
         (map_option (\<lambda>v. v + choose_offset yo yob (snd hv)) (fst hv)) (line_height a * yr) (surface st))])
       = Inr m" and
    s: "st' = \<lparr> arr = update_stack ?x1 ?x2 (xi (fst (fst pr))) (xi (snd (fst pr)))
                    (snd (draw_annotation e a tx ?x1 ?x2
                       (map_option (\<lambda>v. v + choose_offset yo yob (snd hv)) (fst hv))
                       (line_height a * yr) (surface st)))
                    (arr st),
             y_stack = y_stack st @ [snd (draw_annotation e a tx ?x1 ?x2
                       (map_option (\<lambda>v. v + choose_offset yo yob (snd hv)) (fst hv))
                       (line_height a * yr) (surface st))],
             ymaxs = ymaxs st @ [m],
             surface = fst (draw_annotation e a tx ?x1 ?x2
                       (map_option (\<lambda>v. v + choose_offset yo yob (snd hv)) (fst hv))
                       (line_height a * yr) (surface st)) \<rparr>"
    by (auto simp: annotate_pair_def Let_def bind_eq_Inr case_prod_beta)
  show thesis
    by (rule that[of tx "fst hv" "snd hv" m]) (use t h m s in simp_all)
qed

lemma annotate_pair_plotted:
  assumes "annotate_pair e a tbl yo yob yr pr st = Inr st'"
  shows "map fst (plotted (surface st'))
           = map fst (plotted (surface st))
             @ [[x (fst (fst pr)), x (fst (fst pr)), x (snd (fst pr)), x (snd (fst pr))]]"
  using assms by (elim annotate_pair_Inr) (simp add: draw_annotation_plotted)

lemma annotate_all_plotted:
  assumes "annotate_all e a tbl yo yob yr prs st = (None, st')"
  shows "map fst (plotted (surface st'))
           = map fst (plotted (surface st))
             @ map (\<lambda>pr. [x (fst (fst pr)), x (fst (fst pr)), x (snd (fst pr)), x (snd (fst pr))]) prs"
  using assms
proof (induction prs arbitrary: st)
  case Nil
  then show ?case by simp
next
  case (Cons pr prs)
  from Cons.prems obtain st1 where
    step: "annotate_pair e a tbl yo yob yr pr st = Inr st1" and
    rest: "annotate_all e a tbl yo yob yr prs st1 = (None, st')"
    by (auto split: sum.splits)
  show ?case
    using Cons.IH[OF rest] annotate_pair_plotted[OF step] by simp
qed


lemmas model_defs =
  prepare_def validate_arguments_def assert_is_in_def legend_thresholds_def default_thresholds_def
  sort_values_desc_def offsets_def make_box_structs_def make_box_struct_def make_box_names_def
  find_x_position_box_def get_box_data_def getitem_def remove_na_def non_nan_def hue_masked_def
  obs_values_def store_as_def toward_zero_def box_label_def
  box_structs_dic_def order_pair_def sort_box_struct_pairs_def pair_distance_def
  fetch_results_def make_result_def StatResult_def apply_correction_def
  annotate_prepared_def initial_engine_def init_y_stack_arr_def annotate_pair_def
  highest_in_range_def choose_offset_def draw_annotation_def
  annotation_text_def nanargmax_def select_range_def in_range_def update_stack_def
  py_max_def float_gt_def set_final_ylim_def add_stat_annotation_def
  pval_annotation_text_def default_format_strings_def

lemmas example_defs =
  example_ext_def example_args_def example_axes_def two_groups_def four_groups_def
  two_pairs_args_def box_A_def box_B_def two_groups_engine_def negative_groups_def
  negative_axes_def four_int_groups_def int_pairs_args_def

text \<open>
  C8. The pairs are processed in the order of the list \<open>p_pairs\<close>: a pair never comes
  after one with a larger distance \<open>|right.x - left.x|\<close>, and of two pairs with the same
  distance the one requested first comes first. Every processed pair carries the index
  of a requested pair and names its two boxes, and the brackets are drawn on the axes
  in that order.
\<close>

theorem pairs_processed_by_distance:
  assumes "prepare e a ax0 = Inr p"
  shows "(\<forall>i j. i < j \<and> j < length (p_pairs p) \<longrightarrow>
            pair_distance (p_pairs p ! i) \<le> pair_distance (p_pairs p ! j) \<and>
            (pair_distance (p_pairs p ! i) = pair_distance (p_pairs p ! j) \<longrightarrow>
               i_box_pair (fst (p_pairs p ! i)) < i_box_pair (fst (p_pairs p ! j))))
       \<and> (\<forall>k<length (p_pairs p).
            i_box_pair (fst (p_pairs p ! k)) < length (box_pairs a) \<and>
            {box (fst (p_pairs p ! k)), box (snd (p_pairs p ! k))}
              = {fst (box_pairs a ! i_box_pair (fst (p_pairs p ! k))),
                 snd (box_pairs a ! i_box_pair (fst (p_pairs p ! k)))} \<and>
            pair_distance (p_pairs p ! k) = x (snd (p_pairs p ! k)) - x (fst (p_pairs p ! k)))
       \<and> (\<forall>st. annotate_prepared e a p ax0 = (None, st) \<longrightarrow>
            map fst (plotted (surface st))
              = map fst (plotted ax0)
                @ map (\<lambda>pr. [x (fst pr), x (fst pr), x (snd pr), x (snd pr)]) (p_pairs p))"
proof -
  from assms obtain corr tbl yo yob bs pairs rs where
    res: "make_box_struct_pairs (make_box_names (box_plotter a)) (box_structs_dic bs) 0 (box_pairs a)
            = Inr pairs" and
    fr: "fetch_results e a corr (sort_box_struct_pairs pairs) = Inr rs" and
    p: "p = \<lparr> p_thresholds = tbl, p_ylim = ylim ax0, p_y_offset = yo, p_y_offset_to_box = yob,
             p_box_structs = bs, p_pairs = sort_box_struct_pairs pairs,
             p_results = apply_correction corr (alpha a) rs \<rparr>"
    by (rule prepare_Inr)
  have pp: "p_pairs p = sort_box_struct_pairs pairs" by (simp add: p)
  have order: "\<forall>i j. i < j \<and> j < length (p_pairs p) \<longrightarrow>
            pair_distance (p_pairs p ! i) \<le> pair_distance (p_pairs p ! j) \<and>
            (pair_distance (p_pairs p ! i) = pair_distance (p_pairs p ! j) \<longrightarrow>
               i_box_pair (fst (p_pairs p ! i)) < i_box_pair (fst (p_pairs p ! j)))"
    using sorted_pairs_order[OF res] unfolding pp by (simp add: sorted_wrt_iff_nth_less)
  have link: "i_box_pair (fst (p_pairs p ! k)) < length (box_pairs a) \<and>
            {box (fst (p_pairs p ! k)), box (snd (p_pairs p ! k))}
              = {fst (box_pairs a ! i_box_pair (fst (p_pairs p ! k))),
                 snd (box_pairs a ! i_box_pair (fst (p_pairs p ! k)))} \<and>
            pair_distance (p_pairs p ! k) = x (snd (p_pairs p ! k)) - x (fst (p_pairs p ! k))"
    if "k < length (p_pairs p)" for k
  proof -
    have "p_pairs p ! k \<in> set pairs"
      using that nth_mem[OF that] by (simp add: pp sort_box_struct_pairs_def)
    then obtain j s1 s2 where j: "j < length (box_pairs a)"
      and d1: "box_structs_dic bs (fst (box_pairs a ! j)) = Some s1"
      and d2: "box_structs_dic bs (snd (box_pairs a ! j)) = Some s2"
      and eq: "p_pairs p ! k = order_pair j s1 s2"
      using resolved_pair_facts[OF res] by metis
    show ?thesis
      using j box_structs_dic_Some(1)[OF d1] box_structs_dic_Some(1)[OF d2]
      by (simp add: eq order_pair_props pair_distance_def)
  qed
  have len: "length (p_results p) = length (p_pairs p)"
    using fetch_results_Inr(1)[OF fr] by (simp add: p apply_correction_length)
  have drawn: "map fst (plotted (surface st))
              = map fst (plotted ax0)
                @ map (\<lambda>pr. [x (fst pr), x (fst pr), x (snd pr), x (snd pr)]) (p_pairs p)"
    if "annotate_prepared e a p ax0 = (None, st)" for st
  proof -
    have "map (\<lambda>pr. [x (fst (fst pr)), x (fst (fst pr)), x (snd (fst pr)), x (snd (fst pr))])
            (zip (p_pairs p) (p_results p))
          = map (\<lambda>pr. [x (fst pr), x (fst pr), x (snd pr), x (snd pr)])
              (map fst (zip (p_pairs p) (p_results p)))"
      by (simp add: o_def)
    also have "map fst (zip (p_pairs p) (p_results p)) = p_pairs p"
      using len by simp
    finally show ?thesis
      using annotate_all_plotted[OF that[unfolded annotate_prepared_def]]
      by (simp add: initial_engine_def)
  qed
  show ?thesis using order link drawn by blast
qed


theorem pairs_processed_by_distance_witness:
  "prepare example_ext two_pairs_args example_axes
     = Inr (projr (prepare example_ext two_pairs_args example_axes))
   \<and> map (i_box_pair \<circ> fst) (p_pairs (projr (prepare example_ext two_pairs_args example_axes))) = [1, 0]
   \<and> pair_distance (p_pairs (projr (prepare example_ext two_pairs_args example_axes)) ! 0)
       \<le> pair_distance (p_pairs (projr (prepare example_ext two_pairs_args example_axes)) ! 1)"
proof -
  let ?p = "projr (prepare example_ext two_pairs_args example_axes)"
  have h: "prepare example_ext two_pairs_args example_axes = Inr ?p"
    by (simp add: model_defs example_defs Let_def)
  have i: "map (i_box_pair \<circ> fst) (p_pairs ?p) = [1, 0]"
    by (simp add: model_defs example_defs Let_def)
  have "pair_distance (p_pairs ?p ! 0) \<le> pair_distance (p_pairs ?p ! 1)"
    using pairs_processed_by_distance[OF h, THEN conjunct1, rule_format, of 0 1] i
    by (simp add: arg_cong[OF i, of length, simplified])
  then show ?thesis using h i by blast
qed

text \<open>
  C1 (as amended). A call that returns normally returns one result per requested pair,
  in the order in which the pairs are processed (by ascending distance, ties in request
  order): the k-th result carries the boxes of the k-th processed pair and, with custom
  p-values, the p-value given for that pair's index in the request. Each request index
  occurs exactly once among the processed pairs.
\<close>

theorem results_in_processing_order:
  assumes "add_stat_annotation e a ax0 = (Inr rs, ax')"
  shows "\<exists>p. prepare e a ax0 = Inr p \<and> rs = p_results p
           \<and> length rs = length (box_pairs a)
           \<and> length (p_pairs p) = length (box_pairs a)
           \<and> distinct (map (i_box_pair \<circ> fst) (p_pairs p))
           \<and> set (map (i_box_pair \<circ> fst) (p_pairs p)) = {0..<length (box_pairs a)}
           \<and> sorted (map pair_distance (p_pairs p))
           \<and> (\<forall>k<length rs.
                 box1 (rs ! k) = Some (box (fst (p_pairs p ! k)))
               \<and> box2 (rs ! k) = Some (box (snd (p_pairs p ! k)))
               \<and> {box (fst (p_pairs p ! k)), box (snd (p_pairs p ! k))}
                   = {fst (box_pairs a ! i_box_pair (fst (p_pairs p ! k))),
                      snd (box_pairs a ! i_box_pair (fst (p_pairs p ! k)))}
               \<and> (\<not> perform_stat_test a \<longrightarrow>
                    (\<exists>ps. pvalues a = Some ps
                        \<and> pval (rs ! k) = ps ! i_box_pair (fst (p_pairs p ! k)))))"
proof -
  from assms obtain p where prep: "prepare e a ax0 = Inr p" and rs: "rs = p_results p"
    by (auto simp: add_stat_annotation_def split: sum.splits prod.splits option.splits)
  from prep obtain corr tbl yo yob bs pairs rs0 where
    res: "make_box_struct_pairs (make_box_names (box_plotter a)) (box_structs_dic bs) 0 (box_pairs a)
            = Inr pairs" and
    fr: "fetch_results e a corr (sort_box_struct_pairs pairs) = Inr rs0" and
    p: "p = \<lparr> p_thresholds = tbl, p_ylim = ylim ax0, p_y_offset = yo, p_y_offset_to_box = yob,
             p_box_structs = bs, p_pairs = sort_box_struct_pairs pairs,
             p_results = apply_correction corr (alpha a) rs0 \<rparr>"
    by (rule prepare_Inr)
  have pp: "p_pairs p = sort_box_struct_pairs pairs" by (simp add: p)
  have rs': "rs = apply_correction corr (alpha a) rs0" by (simp add: rs p)
  note perm = sorted_pairs_permutation[OF res, folded pp]
  have len0: "length rs0 = length (p_pairs p)"
    using fetch_results_Inr(1)[OF fr] by (simp add: pp)
  have len: "length rs = length (box_pairs a)"
    using len0 perm(1) by (simp add: rs' apply_correction_length)
  have srt: "sorted (map pair_distance (p_pairs p))"
    by (simp add: pp sort_box_struct_pairs_def)
  have each: "box1 (rs ! k) = Some (box (fst (p_pairs p ! k)))
               \<and> box2 (rs ! k) = Some (box (snd (p_pairs p ! k)))
               \<and> {box (fst (p_pairs p ! k)), box (snd (p_pairs p ! k))}
                   = {fst (box_pairs a ! i_box_pair (fst (p_pairs p ! k))),
                      snd (box_pairs a ! i_box_pair (fst (p_pairs p ! k)))}
               \<and> (\<not> perform_stat_test a \<longrightarrow>
                    (\<exists>ps. pvalues a = Some ps
                        \<and> pval (rs ! k) = ps ! i_box_pair (fst (p_pairs p ! k))))"
    if k: "k < length rs" for k
  proof -
    have k0: "k < length rs0" "k < length (p_pairs p)"
      using k len0 by (simp_all add: rs' apply_correction_length)
    have mr: "make_result e a corr (length (p_pairs p)) (p_pairs p ! k) = Inr (rs0 ! k)"
      using fetch_results_Inr(2)[OF fr] k0 by (simp add: pp)
    have same: "box1 (rs ! k) = box1 (rs0 ! k)" "box2 (rs ! k) = box2 (rs0 ! k)"
      "pval (rs ! k) = pval (rs0 ! k)"
      using k k0 apply_correction_keeps[of corr "alpha a" rs0]
      by (metis rs' nth_map apply_correction_length)+
    have "p_pairs p ! k \<in> set pairs"
      using nth_mem[OF k0(2)] by (simp add: pp sort_box_struct_pairs_def)
    then obtain j s1 s2 where j: "j < length (box_pairs a)"
      and d1: "box_structs_dic bs (fst (box_pairs a ! j)) = Some s1"
      and d2: "box_structs_dic bs (snd (box_pairs a ! j)) = Some s2"
      and eq: "p_pairs p ! k = order_pair j s1 s2"
      using resolved_pair_facts[OF res] by metis
    have boxes: "{box (fst (p_pairs p ! k)), box (snd (p_pairs p ! k))}
                   = {fst (box_pairs a ! i_box_pair (fst (p_pairs p ! k))),
                      snd (box_pairs a ! i_box_pair (fst (p_pairs p ! k)))}"
      using box_structs_dic_Some(1)[OF d1] box_structs_dic_Some(1)[OF d2]
      by (simp add: eq order_pair_props)
    show ?thesis
      using make_result_Inr[OF mr] same boxes by auto
  qed
  show ?thesis
    using prep rs len perm srt each by blast
qed

theorem results_in_processing_order_witness:
  "add_stat_annotation example_ext two_pairs_args example_axes
     = (Inr (projr (fst (add_stat_annotation example_ext two_pairs_args example_axes))),
        snd (add_stat_annotation example_ext two_pairs_args example_axes))
   \<and> (\<exists>p. prepare example_ext two_pairs_args example_axes = Inr p
          \<and> projr (fst (add_stat_annotation example_ext two_pairs_args example_axes)) = p_results p
          \<and> length (p_results p) = length (box_pairs two_pairs_args)
          \<and> sorted (map pair_distance (p_pairs p)))"
proof -
  have h: "add_stat_annotation example_ext two_pairs_args example_axes
     = (Inr (projr (fst (add_stat_annotation example_ext two_pairs_args example_axes))),
        snd (add_stat_annotation example_ext two_pairs_args example_axes))"
    by (simp add: model_defs example_defs Let_def)
  from results_in_processing_order[OF h] obtain p where
    a: "prepare example_ext two_pairs_args example_axes = Inr p" and
    b: "projr (fst (add_stat_annotation example_ext two_pairs_args example_axes)) = p_results p" and
    c: "length (projr (fst (add_stat_annotation example_ext two_pairs_args example_axes)))
          = length (box_pairs two_pairs_args)" and
    d: "sorted (map pair_distance (p_pairs p))"
    by blast
  have "length (p_results p) = length (box_pairs two_pairs_args)"
    using b c by simp
  then show ?thesis
    using h a b d by (intro conjI exI[of _ p]) simp_all
qed

text \<open>
  The claim as stated fails: with the pairs (A, C) and (A, B) requested in this order
  and the custom p-values 0.1 and 0.2, the first returned result is the one of the
  second requested pair (A, B), with p-value 0.2.
\<close>

theorem results_in_request_order_counterexample:
  "box_pairs two_pairs_args = [(Cat ''A'', Cat ''C''), (Cat ''A'', Cat ''B'')]
   \<and> pvalues two_pairs_args = Some [0.1, 0.2]
   \<and> fst (add_stat_annotation example_ext two_pairs_args example_axes)
       = Inr [(StatResult ''Custom statistical test'' [] None None 0.2)
                \<lparr>box1 := Some (Cat ''A''), box2 := Some (Cat ''B'')\<rparr>,
              (StatResult ''Custom statistical test'' [] None None 0.1)
                \<lparr>box1 := Some (Cat ''A''), box2 := Some (Cat ''C'')\<rparr>]"
  by (simp add: model_defs example_defs Let_def)


section \<open>Placement\<close>

text \<open>
  C5. Two groups A at x = 0 with maximum 10 and B at x = 1 with maximum 12, the single
  pair (A, B), no earlier annotation, the default offset to the box of 0.06, line height
  0.02 and axes from 3 to 13 (a y range of 10), no text: the query of the stack finds 12
  with nothing stacked, the bracket is drawn at y = 12.6 with its top at 12.8, and 12.8
  is the top consumed, recorded at both positions. The whole call draws that bracket.
\<close>

theorem scenario_two_groups_one_pair:
  "make_box_structs two_groups = Inr [box_A, box_B]
   \<and> initial_engine example_args
         \<lparr>p_thresholds = [], p_ylim = ylim example_axes, p_y_offset = 0.05 * 10,
           p_y_offset_to_box = 0.06 * 10, p_box_structs = [box_A, box_B],
           p_pairs = [(box_A, box_B)], p_results = []\<rparr> example_axes
       = two_groups_engine
   \<and> offsets example_args 10 = Inr (0.05 * 10, 0.06 * 10)
   \<and> highest_in_range (x box_A) (x box_B) (xi box_A) (arr two_groups_engine) = Inr (Some 12, 0)
   \<and> choose_offset (0.05 * 10) (0.06 * 10) 0 = 0.6
   \<and> line_height example_args * 10 = 0.2
   \<and> annotate_pair example_ext example_args [] (0.05 * 10) (0.06 * 10) 10
         ((box_A, box_B), StatResult ''Custom statistical test'' [] None None 0.5)
         two_groups_engine
       = Inr \<lparr>arr = \<lparr>int_dtype = False, row_x = [0, 1], row_top = [Some 12.8, Some 12.8],
                      row_count = [1, 1]\<rparr>,
               y_stack = [Some 12.8], ymaxs = [Some 12.8],
               surface = example_axes
                 \<lparr>plotted := [([0, 0, 1, 1], [Some 12.6, Some 12.8, Some 12.8, Some 12.6])]\<rparr>\<rparr>
   \<and> snd (add_stat_annotation example_ext example_args example_axes)
       = \<lparr>ylim = (3, 1.03 * 12.8),
          plotted = [([0, 0, 1, 1], [Some 12.6, Some 12.8, Some 12.8, Some 12.6])],
          annotated = []\<rparr>"
  by (simp add: model_defs example_defs Let_def)

lemma update_stack_rows:
  "int_dtype (update_stack x1 x2 xi1 xi2 t stack) = int_dtype stack"
  "row_x (update_stack x1 x2 xi1 xi2 t stack) = row_x stack"
  "length (row_top (update_stack x1 x2 xi1 xi2 t stack))
     = min (length (row_x stack)) (length (row_top stack))"
  "length (row_count (update_stack x1 x2 xi1 xi2 t stack)) = length (row_count stack)"
  by (simp_all add: update_stack_def)

lemma update_stack_top_nth:
  assumes "j < length (row_x stack)" and "j < length (row_top stack)"
  shows "row_top (update_stack x1 x2 xi1 xi2 t stack) ! j
           = (if in_range x1 x2 (row_x stack ! j) then store_as (int_dtype stack) t
              else row_top stack ! j)"
  using assms by (simp add: update_stack_def)









section \<open>Axis limits\<close>

lemma float_gt_simps [simp]:
  "float_gt v None = False" "float_gt None v = False" "float_gt (Some p) (Some q) = (q < p)"
  by (simp_all add: float_gt_def split: option.splits)

lemma fold_max_None:
  "fold (\<lambda>item m. if float_gt item m then item else m) rest None = None"
  by (induction rest) simp_all





lemma py_max_hd_None: "vs \<noteq> [] \<Longrightarrow> hd vs = None \<Longrightarrow> py_max vs = Inr None"
  by (cases vs) (simp_all add: py_max_def fold_max_None)









section \<open>The query of the stack\<close>

lemma filter_le_sorted:
  "sorted_wrt (<) (map fst zs) \<Longrightarrow>
   filter (\<lambda>u. fst u \<le> (c::real)) zs = takeWhile (\<lambda>u. fst u \<le> c) zs"
proof (induction zs)
  case Nil
  then show ?case by simp
next
  case (Cons z zs)
  show ?case
  proof (cases "fst z \<le> c")
    case True
    then show ?thesis using Cons by simp
  next
    case False
    have "\<forall>u\<in>set zs. \<not> fst u \<le> c"
      using Cons.prems False by auto
    then have "filter (\<lambda>u. fst u \<le> c) zs = []"
      by (auto simp: filter_empty_conv)
    then show ?thesis using False by simp
  qed
qed

lemma filter_in_range_sorted:
  assumes "sorted_wrt (<) (map fst zs)" and "n < length zs" and "fst (zs ! n) = lo"
  shows "filter (\<lambda>u. in_range lo hi (fst u)) zs = takeWhile (\<lambda>u. fst u \<le> hi) (drop n zs)"
proof -
  have split: "zs = take n zs @ drop n zs" by simp
  have before: "\<forall>u\<in>set (take n zs). fst u < lo"
  proof
    fix u assume "u \<in> set (take n zs)"
    then obtain i where i: "i < n" "i < length zs" "u = zs ! i"
      by (auto simp: in_set_conv_nth)
    have "map fst zs ! i < map fst zs ! n"
      using assms(1,2) i by (simp add: sorted_wrt_iff_nth_less)
    then show "fst u < lo" using assms(2,3) i by simp
  qed
  have after: "\<forall>u\<in>set (drop n zs). lo \<le> fst u"
  proof
    fix u assume "u \<in> set (drop n zs)"
    then obtain i where i: "i < length zs - n" "u = zs ! (n + i)"
      by (auto simp: in_set_conv_nth)
    show "lo \<le> fst u"
    proof (cases "i = 0")
      case True
      then show ?thesis using i assms(3) by simp
    next
      case False
      then have "map fst zs ! n < map fst zs ! (n + i)"
        using assms(1) i by (simp add: sorted_wrt_iff_nth_less)
      then show ?thesis using assms(2,3) i by simp
    qed
  qed
  have "filter (\<lambda>u. in_range lo hi (fst u)) (take n zs) = []"
    using before by (auto simp: filter_empty_conv in_range_def)
  moreover have "filter (\<lambda>u. in_range lo hi (fst u)) (drop n zs)
                   = filter (\<lambda>u. fst u \<le> hi) (drop n zs)"
    using after by (intro filter_cong) (auto simp: in_range_def)
  moreover have "sorted_wrt (<) (map fst (drop n zs))"
    using assms(1) by (simp add: drop_map[symmetric] sorted_wrt_drop)
  ultimately show ?thesis
    using filter_le_sorted[of "drop n zs" hi] filter_append[of _ "take n zs" "drop n zs"]
    by simp
qed

lemma nanargmax_Inr:
  assumes "nanargmax vs = Inr k"
  shows "k < length vs" and "\<exists>M. vs ! k = Some M \<and> (\<forall>v. Some v \<in> set vs \<longrightarrow> v \<le> M)"
proof -
  from assms obtain d ds where na: "non_nan vs = d # ds"
    and idx: "index_of vs (Some (Max (set (d # ds)))) = Inr k"
    by (auto simp: nanargmax_def split: list.splits)
  have mem: "\<And>v. v \<in> set (non_nan vs) \<longleftrightarrow> Some v \<in> set vs"
    by (auto simp: non_nan_def split: option.splits)
  show "k < length vs" using index_of_Inr[OF idx] by simp
  have "\<forall>v. Some v \<in> set vs \<longrightarrow> v \<le> Max (set (d # ds))"
    using mem na by (metis List.finite_set Max_ge)
  then show "\<exists>M. vs ! k = Some M \<and> (\<forall>v. Some v \<in> set vs \<longrightarrow> v \<le> M)"
    using index_of_Inr[OF idx] by blast
qed


lemma highest_in_range_geometry:
  assumes srt: "sorted_wrt (<) (row_x s)"
    and len: "length (row_top s) = length (row_x s)"
    and n: "n < length (row_x s)" "row_x s ! n = lo"
    and q: "highest_in_range lo hi n s = Inr (top0, c)"
  shows "\<exists>M. top0 = Some M
           \<and> (\<forall>j<length (row_x s). in_range lo hi (row_x s ! j)
                 \<longrightarrow> (\<forall>v. row_top s ! j = Some v \<longrightarrow> v \<le> M))"
proof -
  let ?zs = "zip (row_x s) (row_top s)"
  let ?sel = "select_range lo hi s"
  have fst_zs: "map fst ?zs = row_x s" and lzs: "length ?zs = length (row_x s)"
    using len by simp_all
  have sel_filter: "?sel = map snd (filter (\<lambda>u. in_range lo hi (fst u)) ?zs)"
    by (simp add: select_range_def case_prod_unfold)
  have "filter (\<lambda>u. in_range lo hi (fst u)) ?zs = takeWhile (\<lambda>u. fst u \<le> hi) (drop n ?zs)"
    using srt n len by (intro filter_in_range_sorted) simp_all
  then have sel: "?sel = map snd (takeWhile (\<lambda>u. fst u \<le> hi) (drop n ?zs))"
    using sel_filter by simp
  from q obtain k where k: "nanargmax ?sel = Inr k"
    and top0: "getitem (row_top s) (n + k) = Inr top0"
    by (auto simp: highest_in_range_def Let_def bind_eq_Inr)
  from nanargmax_Inr[OF k] obtain M where
    kl: "k < length ?sel" and kM: "?sel ! k = Some M" and
    bound: "\<forall>v. Some v \<in> set ?sel \<longrightarrow> v \<le> M"
    by blast
  have kt: "k < length (takeWhile (\<lambda>u. fst u \<le> hi) (drop n ?zs))"
    using kl sel by simp
  then have kd: "k < length (drop n ?zs)"
    using length_takeWhile_le[of "\<lambda>u. fst u \<le> hi" "drop n ?zs"] by linarith
  have "?sel ! k = snd (drop n ?zs ! k)"
    using kt by (simp add: sel takeWhile_nth)
  also have "\<dots> = row_top s ! (n + k)"
  proof -
    have "n + k < length ?zs" using kd len by simp
    then have "drop n ?zs ! k = ?zs ! (n + k)" by simp
    also have "snd (?zs ! (n + k)) = row_top s ! (n + k)"
      using \<open>n + k < length ?zs\<close> by simp
    finally show ?thesis .
  qed
  finally have "row_top s ! (n + k) = Some M" using kM by simp
  moreover have "top0 = row_top s ! (n + k)"
    using top0 by (auto simp: getitem_def split: if_splits)
  ultimately have t: "top0 = Some M" by simp
  have "v \<le> M" if j: "j < length (row_x s)" and r: "in_range lo hi (row_x s ! j)"
    and v: "row_top s ! j = Some v" for j v
  proof -
    have "j < length ?zs" using j lzs by simp
    then have "?zs ! j \<in> set ?zs" by (rule nth_mem)
    moreover have "fst (?zs ! j) = row_x s ! j" using j len by simp
    ultimately have "?zs ! j \<in> set (filter (\<lambda>u. in_range lo hi (fst u)) ?zs)"
      using r by simp
    then have "snd (?zs ! j) \<in> set ?sel"
      unfolding sel_filter by (metis image_eqI set_map)
    then have "Some v \<in> set ?sel" using j len v by simp
    then show ?thesis using bound by blast
  qed
  then show ?thesis using t by blast
qed

lemma draw_annotation_top:
  assumes "text_above_bracket e a"
  shows "\<exists>t. snd (draw_annotation e a tx x1 x2 (Some y) h ax) = Some t \<and> y + h \<le> t"
proof (cases tx)
  case None
  then show ?thesis by (simp add: draw_annotation_def Let_def)
next
  case (Some s)
  let ?ax1 = "ax\<lparr>plotted := plotted ax @ [([x1, x1, x2, x2], [Some y, Some (y + h), Some (y + h), Some y])]\<rparr>"
  let ?ann = "\<lparr>ann_text = s, ann_xy = ((x1 + x2) / 2, Some (y + h)), ann_xytext = (0, text_offset a)\<rparr>"
  let ?axt = "?ax1\<lparr>annotated := annotated ?ax1 @ [?ann]\<rparr>"
  have g: "y + h \<le> guess_top e ?axt (y + h + text_offset a)"
    using assms by (simp add: text_above_bracket_def)
  have m: "y + h \<le> t" if "annotation_top e ?axt ?ann = Some t" for t
    using assms that unfolding text_above_bracket_def
    by (metis annotation.select_convs(2) snd_conv)
  show ?thesis
    using Some g m by (auto simp: draw_annotation_def Let_def split: option.splits)
qed

lemma draw_annotation_bracket:
  "plotted (fst (draw_annotation e a tx x1 x2 y h ax))
     = plotted ax @ [([x1, x1, x2, x2],
                      [y, map_option (\<lambda>v. v + h) y, map_option (\<lambda>v. v + h) y, y])]"
  by (simp add: draw_annotation_def Let_def split: option.splits)


section \<open>One update of the stack\<close>

lemma nan_le_refl [simp]: "nan_le t t"
  by (simp add: nan_le_def split: option.splits)

lemma nan_le_trans: "nan_le r s \<Longrightarrow> nan_le s t \<Longrightarrow> nan_le r t"
  by (auto simp: nan_le_def split: option.splits)

lemma geometry_ok_subset:
  "geometry_ok s prs \<Longrightarrow> set prs' \<subseteq> set prs \<Longrightarrow> geometry_ok s prs'"
  by (auto simp: geometry_ok_def)

lemma store_as_int: "\<exists>k. store_as True (Some r) = Some (real_of_int k)"
  by (simp add: store_as_def)

lemma toward_zero_ge:
  assumes "real_of_int k \<le> r"
  shows "real_of_int k \<le> real_of_int (toward_zero r)"
proof (cases "0 \<le> r")
  case True
  then show ?thesis using assms by (simp add: toward_zero_def le_floor_iff)
next
  case False
  have "r \<le> real_of_int \<lceil>r\<rceil>" by (rule le_of_int_ceiling)
  then have "real_of_int k \<le> real_of_int \<lceil>r\<rceil>" using assms by linarith
  then show ?thesis using False by (simp add: toward_zero_def)
qed

lemma update_stack_set:
  "set (row_top (update_stack x1 x2 xi1 xi2 t s)) \<subseteq> insert (store_as (int_dtype s) t) (set (row_top s))"
proof -
  have "u \<in> insert (store_as (int_dtype s) t) (set (row_top s))"
    if "u \<in> set (map (\<lambda>(v, w). if in_range x1 x2 v then store_as (int_dtype s) t else w)
                      (zip (row_x s) (row_top s)))" for u
  proof -
    from that obtain z where z: "z \<in> set (zip (row_x s) (row_top s))"
      and u: "u = (if in_range x1 x2 (fst z) then store_as (int_dtype s) t else snd z)"
      by (auto simp: case_prod_unfold)
    have "snd z \<in> set (row_top s)" using z by (metis prod.collapse set_zip_rightD)
    then show ?thesis using u by simp
  qed
  then show ?thesis by (auto simp: update_stack_def)
qed

lemma geometry_ok_update:
  assumes "geometry_ok s prs"
  shows "geometry_ok (update_stack x1 x2 xi1 xi2 (Some r) s) prs"
proof -
  have "\<exists>k. u = Some (real_of_int k)"
    if "int_dtype s" and "u \<in> set (row_top (update_stack x1 x2 xi1 xi2 (Some r) s))" for u
  proof -
    have "u = store_as True (Some r) \<or> u \<in> set (row_top s)"
      using update_stack_set[of x1 x2 xi1 xi2 "Some r" s] that by auto
    then show ?thesis
      using store_as_int[of r] assms that(1) by (auto simp: geometry_ok_def)
  qed
  then show ?thesis
    using assms by (simp add: geometry_ok_def update_stack_rows)
qed

lemma draw_annotation_Some:
  "\<exists>t. snd (draw_annotation e a tx x1 x2 (Some y) h ax) = Some t"
  by (cases tx) (auto simp: draw_annotation_def Let_def split: option.splits)

lemma highest_in_range_mem:
  assumes "highest_in_range lo hi n s = Inr (top0, c)"
  shows "top0 \<in> set (row_top s)"
  using assms
  by (auto simp: highest_in_range_def Let_def bind_eq_Inr getitem_def split: if_splits)

lemma annotate_pair_geometry:
  assumes step: "annotate_pair e a tbl yo yob yr pr st = Inr st'"
    and geo: "geometry_ok (arr st) [fst pr]"
    and rend: "text_above_bracket e a"
  obtains M off t where
    "\<forall>j<length (row_x (arr st)). in_range (x (fst (fst pr))) (x (snd (fst pr))) (row_x (arr st) ! j)
        \<longrightarrow> (\<forall>v. row_top (arr st) ! j = Some v \<longrightarrow> v \<le> M)"
    "off = yo \<or> off = yob"
    "plotted (surface st')
       = plotted (surface st)
         @ [([x (fst (fst pr)), x (fst (fst pr)), x (snd (fst pr)), x (snd (fst pr))],
             [Some (M + off), Some (M + off + line_height a * yr),
              Some (M + off + line_height a * yr), Some (M + off)])]"
    "y_stack st' = y_stack st @ [Some t]"
    "M + off + line_height a * yr \<le> t"
    "arr st' = update_stack (x (fst (fst pr))) (x (snd (fst pr))) (xi (fst (fst pr)))
                 (xi (snd (fst pr))) (Some t) (arr st)"
proof -
  let ?x1 = "x (fst (fst pr))" and ?x2 = "x (snd (fst pr))"
  let ?h = "line_height a * yr"
  from step obtain tx top0 stacked m where
    q: "highest_in_range ?x1 ?x2 (xi (fst (fst pr))) (arr st) = Inr (top0, stacked)" and
    s: "st' = \<lparr> arr = update_stack ?x1 ?x2 (xi (fst (fst pr))) (xi (snd (fst pr)))
                    (snd (draw_annotation e a tx ?x1 ?x2
                       (map_option (\<lambda>v. v + choose_offset yo yob stacked) top0)
                       ?h (surface st)))
                    (arr st),
             y_stack = y_stack st @ [snd (draw_annotation e a tx ?x1 ?x2
                       (map_option (\<lambda>v. v + choose_offset yo yob stacked) top0)
                       ?h (surface st))],
             ymaxs = ymaxs st @ [m],
             surface = fst (draw_annotation e a tx ?x1 ?x2
                       (map_option (\<lambda>v. v + choose_offset yo yob stacked) top0)
                       ?h (surface st)) \<rparr>"
    by (rule annotate_pair_Inr)
  from geo have srt: "sorted_wrt (<) (row_x (arr st))"
    and len: "length (row_top (arr st)) = length (row_x (arr st))"
    and n: "xi (fst (fst pr)) < length (row_x (arr st))"
           "row_x (arr st) ! xi (fst (fst pr)) = ?x1"
    by (simp_all add: geometry_ok_def)
  from highest_in_range_geometry[OF srt len n q] obtain M where
    top0: "top0 = Some M" and
    bound: "\<forall>j<length (row_x (arr st)). in_range ?x1 ?x2 (row_x (arr st) ! j)
              \<longrightarrow> (\<forall>v. row_top (arr st) ! j = Some v \<longrightarrow> v \<le> M)"
    by blast
  let ?off = "choose_offset yo yob stacked"
  obtain t where t: "snd (draw_annotation e a tx ?x1 ?x2 (Some (M + ?off)) ?h (surface st)) = Some t"
    and ge: "M + ?off + ?h \<le> t"
    using draw_annotation_top[OF rend] by blast
  show thesis
  proof (rule that[of M ?off t])
    show "?off = yo \<or> ?off = yob" by (simp add: choose_offset_def)
    show "plotted (surface st')
       = plotted (surface st)
         @ [([?x1, ?x1, ?x2, ?x2],
             [Some (M + ?off), Some (M + ?off + ?h), Some (M + ?off + ?h), Some (M + ?off)])]"
      by (simp add: s top0 draw_annotation_bracket)
  qed (use bound ge in \<open>simp_all add: s top0 t\<close>)
qed

lemma annotate_pair_mono:
  assumes step: "annotate_pair e a tbl yo yob yr pr st = Inr st'"
    and geo: "geometry_ok (arr st) [fst pr]"
    and rend: "text_above_bracket e a"
    and nonneg: "0 \<le> yo" "0 \<le> yob" "0 \<le> line_height a * yr"
  shows "\<forall>j<length (row_top (arr st)). nan_le (row_top (arr st) ! j) (row_top (arr st') ! j)"
proof (intro allI impI)
  fix j assume j: "j < length (row_top (arr st))"
  from geo have len: "length (row_top (arr st)) = length (row_x (arr st))"
    by (simp add: geometry_ok_def)
  from annotate_pair_geometry[OF step geo rend] obtain M off t where
    bound: "\<forall>j<length (row_x (arr st)). in_range (x (fst (fst pr))) (x (snd (fst pr))) (row_x (arr st) ! j)
        \<longrightarrow> (\<forall>v. row_top (arr st) ! j = Some v \<longrightarrow> v \<le> M)" and
    off: "off = yo \<or> off = yob" and
    ge: "M + off + line_height a * yr \<le> t" and
    upd: "arr st' = update_stack (x (fst (fst pr))) (x (snd (fst pr))) (xi (fst (fst pr)))
                 (xi (snd (fst pr))) (Some t) (arr st)"
    by metis
  have off0: "0 \<le> off" using off nonneg by auto
  show "nan_le (row_top (arr st) ! j) (row_top (arr st') ! j)"
  proof (cases "in_range (x (fst (fst pr))) (x (snd (fst pr))) (row_x (arr st) ! j)")
    case False
    then show ?thesis using j len by (simp add: upd update_stack_top_nth)
  next
    case True
    then have new: "row_top (arr st') ! j = store_as (int_dtype (arr st)) (Some t)"
      using j len by (simp add: upd update_stack_top_nth)
    show ?thesis
    proof (cases "row_top (arr st) ! j")
      case None
      then show ?thesis by (simp add: nan_le_def)
    next
      case (Some v)
      then have "v \<le> M" using bound True j len by simp
      then have vt: "v \<le> t" using ge off0 nonneg(3) by linarith
      show ?thesis
      proof (cases "int_dtype (arr st)")
        case False
        then show ?thesis using Some new vt by (simp add: nan_le_def store_as_def)
      next
        case True
        have "Some v \<in> set (row_top (arr st))" using Some j nth_mem by metis
        then obtain k where "v = real_of_int k"
          using geo True by (auto simp: geometry_ok_def)
        then have "v \<le> real_of_int (toward_zero t)"
          using vt toward_zero_ge by simp
        then show ?thesis using Some new True by (simp add: nan_le_def store_as_def)
      qed
    qed
  qed
qed

lemma annotate_pair_keeps_geometry:
  assumes step: "annotate_pair e a tbl yo yob yr pr st = Inr st'" and geo: "geometry_ok (arr st) prs"
  shows "geometry_ok (arr st') prs" and "length (row_top (arr st')) = length (row_top (arr st))"
    and "int_dtype (arr st') = int_dtype (arr st)"
proof -
  let ?x1 = "x (fst (fst pr))" and ?x2 = "x (snd (fst pr))"
  from step obtain tx top0 stacked m where
    q: "highest_in_range ?x1 ?x2 (xi (fst (fst pr))) (arr st) = Inr (top0, stacked)" and
    s: "arr st' = update_stack ?x1 ?x2 (xi (fst (fst pr))) (xi (snd (fst pr)))
                    (snd (draw_annotation e a tx ?x1 ?x2
                       (map_option (\<lambda>v. v + choose_offset yo yob stacked) top0)
                       (line_height a * yr) (surface st)))
                    (arr st)"
    by (elim annotate_pair_Inr) simp
  show "length (row_top (arr st')) = length (row_top (arr st))"
    using geo by (simp add: s geometry_ok_def update_stack_rows)
  show "int_dtype (arr st') = int_dtype (arr st)"
    by (simp add: s update_stack_rows)
  show "geometry_ok (arr st') prs"
  proof (cases "int_dtype (arr st)")
    case False
    then show ?thesis
      using geo by (simp add: s geometry_ok_def update_stack_rows)
  next
    case True
    have "top0 \<in> set (row_top (arr st))" by (rule highest_in_range_mem[OF q])
    then obtain k where "top0 = Some (real_of_int k)"
      using geo True by (auto simp: geometry_ok_def)
    then obtain t where
      "snd (draw_annotation e a tx ?x1 ?x2
             (map_option (\<lambda>v. v + choose_offset yo yob stacked) top0)
             (line_height a * yr) (surface st)) = Some t"
      using draw_annotation_Some by fastforce
    then show ?thesis
      using geometry_ok_update[OF geo] by (simp add: s)
  qed
qed

section \<open>The sequence of updates\<close>

lemma annotate_all_mono:
  assumes "annotate_all e a tbl yo yob yr prs st = (r, st')"
    and "geometry_ok (arr st) (map fst prs)"
    and rend: "text_above_bracket e a"
    and nonneg: "0 \<le> yo" "0 \<le> yob" "0 \<le> line_height a * yr"
  shows "length (row_top (arr st')) = length (row_top (arr st))
       \<and> (\<forall>j<length (row_top (arr st)). nan_le (row_top (arr st) ! j) (row_top (arr st') ! j))"
  using assms(1,2)
proof (induction prs arbitrary: st)
  case Nil
  then show ?case by simp
next
  case (Cons pr prs)
  show ?case
  proof (cases "annotate_pair e a tbl yo yob yr pr st")
    case (Inl err)
    then show ?thesis using Cons.prems by simp
  next
    case (Inr st1)
    have g1: "geometry_ok (arr st) [fst pr]" and g2: "geometry_ok (arr st) (map fst prs)"
      using Cons.prems(2) by (simp_all add: geometry_ok_def)
    have rest: "annotate_all e a tbl yo yob yr prs st1 = (r, st')"
      using Cons.prems(1) Inr by simp
    note K = annotate_pair_keeps_geometry[OF Inr g2]
    note IH = Cons.IH[OF rest K(1)]
    note M = annotate_pair_mono[OF Inr g1 rend nonneg]
    have len: "length (row_top (arr st')) = length (row_top (arr st))"
      using IH K(2) by simp
    have "nan_le (row_top (arr st) ! j) (row_top (arr st') ! j)"
      if "j < length (row_top (arr st))" for j
    proof (rule nan_le_trans)
      show "nan_le (row_top (arr st) ! j) (row_top (arr st1) ! j)" using M that by blast
      show "nan_le (row_top (arr st1) ! j) (row_top (arr st') ! j)" using IH K(2) that by simp
    qed
    then show ?thesis using len by blast
  qed
qed

lemma annotate_all_keeps_geometry:
  assumes "annotate_all e a tbl yo yob yr prs st = (r, st')" and "geometry_ok (arr st) qs"
  shows "geometry_ok (arr st') qs"
  using assms
proof (induction prs arbitrary: st)
  case Nil
  then show ?case by simp
next
  case (Cons pr prs)
  show ?case
  proof (cases "annotate_pair e a tbl yo yob yr pr st")
    case (Inl err)
    then show ?thesis using Cons.prems by simp
  next
    case (Inr st1)
    then show ?thesis
      using Cons.prems Cons.IH[of st1] annotate_pair_keeps_geometry(1)[OF Inr] by simp
  qed
qed

lemma enumerate_xi_nth:
  assumes "k < length ys"
  shows "map (\<lambda>(i, b). b\<lparr>xi := i\<rparr>) (enumerate 0 ys) ! k = (ys ! k)\<lparr>xi := k\<rparr>"
  using assms by (simp add: nth_enumerate_eq)

lemma make_box_struct_int:
  assumes "make_box_struct pl name = Inr b" and "int_typed b"
  shows "\<exists>k. ymax b = Some (real_of_int k)"
proof -
  from assms obtain vs where vs: "vs \<noteq> []"
    and ym: "ymax b = Some (Max (set (map real_of_int vs)))"
    by (auto simp: make_box_struct_def bind_eq_Inr obs_values_def split: observations.splits)
  have "Max (set (map real_of_int vs)) \<in> set (map real_of_int vs)"
    using vs by (intro Max_in) simp_all
  then show ?thesis using ym by auto
qed

lemma make_box_structs_int:
  assumes "make_box_structs pl = Inr bs"
  shows "\<forall>b\<in>set bs. int_typed b \<longrightarrow> (\<exists>k. ymax b = Some (real_of_int k))"
proof -
  obtain bs0 where bs0: "map_err (make_box_struct pl) (make_box_names pl) = Inr bs0"
    and bs: "bs = map (\<lambda>(i, b). b\<lparr>xi := i\<rparr>) (enumerate 0 (sort_key x bs0))"
    using assms by (auto simp: make_box_structs_def bind_eq_Inr)
  have each: "\<forall>b\<in>set bs0. \<exists>n. make_box_struct pl n = Inr b"
  proof
    fix b assume "b \<in> set bs0"
    then obtain i where i: "i < length bs0" "bs0 ! i = b" by (auto simp: in_set_conv_nth)
    then have "make_box_struct pl (make_box_names pl ! i) = Inr b"
      using map_err_Inr[OF bs0] by (auto simp: list_all2_conv_all_nth)
    then show "\<exists>n. make_box_struct pl n = Inr b" by blast
  qed
  show ?thesis
  proof (intro ballI impI)
    fix b assume b: "b \<in> set bs" and it: "int_typed b"
    then obtain i where i: "i < length (sort_key x bs0)"
      and bi: "b = (sort_key x bs0 ! i)\<lparr>xi := i\<rparr>"
      unfolding bs by (auto simp: in_set_conv_nth nth_enumerate_eq)
    have "sort_key x bs0 ! i \<in> set (sort_key x bs0)" using i by (rule nth_mem)
    then have "sort_key x bs0 ! i \<in> set bs0" by simp
    with bi obtain b0 where "b0 \<in> set bs0" "b = b0\<lparr>xi := i\<rparr>" by blast
    then show "\<exists>k. ymax b = Some (real_of_int k)"
      using each it make_box_struct_int by fastforce
  qed
qed

lemma make_box_structs_shape:
  assumes "make_box_structs pl = Inr bs"
  shows "sorted (map x bs)" and "\<forall>k<length bs. xi (bs ! k) = k"
proof -
  obtain bs0 where bs: "bs = map (\<lambda>(i, b). b\<lparr>xi := i\<rparr>) (enumerate 0 (sort_key x bs0))"
    using assms by (auto simp: make_box_structs_def bind_eq_Inr)
  have "map x bs = map x (sort_key x bs0)"
    unfolding bs using map_enumerate_snd[of x 0 "sort_key x bs0"]
    by (simp add: o_def split_def)
  then show "sorted (map x bs)" by simp
  show "\<forall>k<length bs. xi (bs ! k) = k"
    unfolding bs by (simp add: nth_enumerate_eq)
qed

lemma order_pair_fst:
  "fst (order_pair j s1 s2) = s1\<lparr>i_box_pair := j\<rparr> \<or> fst (order_pair j s1 s2) = s2\<lparr>i_box_pair := j\<rparr>"
  by (simp add: order_pair_def Let_def)

lemma initial_geometry:
  assumes prep: "prepare e a ax0 = Inr p" and dist: "distinct (map x (p_box_structs p))"
  shows "geometry_ok (arr (initial_engine a p ax0)) (p_pairs p)"
proof -
  from prep obtain corr tbl yo yob bs pairs rs where
    mk: "make_box_structs (box_plotter a) = Inr bs" and
    res: "make_box_struct_pairs (make_box_names (box_plotter a)) (box_structs_dic bs) 0 (box_pairs a)
            = Inr pairs" and
    p: "p = \<lparr> p_thresholds = tbl, p_ylim = ylim ax0, p_y_offset = yo, p_y_offset_to_box = yob,
             p_box_structs = bs, p_pairs = sort_box_struct_pairs pairs,
             p_results = apply_correction corr (alpha a) rs \<rparr>"
    by (rule prepare_Inr)
  have pb: "p_box_structs p = bs" and pp: "p_pairs p = sort_box_struct_pairs pairs"
    by (simp_all add: p)
  note S = make_box_structs_shape[OF mk]
  have strict: "sorted_wrt (<) (map x bs)"
    using S(1) dist by (simp add: pb strict_sorted_iff)
  have in_bs: "xi u < length bs \<and> map x bs ! xi u = x u" if "u \<in> set bs" for u
  proof -
    from that obtain k where k: "k < length bs" "bs ! k = u"
      by (auto simp: in_set_conv_nth)
    then have "xi u = k" using S(2) by auto
    then show ?thesis using k by simp
  qed
  have pair_ok: "xi (fst pr) < length bs \<and> map x bs ! xi (fst pr) = x (fst pr)"
    if "pr \<in> set (sort_box_struct_pairs pairs)" for pr
  proof -
    have "pr \<in> set pairs" using that by (simp add: sort_box_struct_pairs_def)
    then obtain j s1 s2 where
      d1: "box_structs_dic bs (fst (box_pairs a ! j)) = Some s1" and
      d2: "box_structs_dic bs (snd (box_pairs a ! j)) = Some s2" and
      eq: "pr = order_pair j s1 s2"
      using resolved_pair_facts[OF res] by metis
    have m1: "s1 \<in> set bs" and m2: "s2 \<in> set bs"
      using box_structs_dic_Some(2)[OF d1] box_structs_dic_Some(2)[OF d2] by simp_all
    from order_pair_fst[of j s1 s2] show ?thesis
    proof
      assume "fst (order_pair j s1 s2) = s1\<lparr>i_box_pair := j\<rparr>"
      then show ?thesis using in_bs[OF m1] by (simp add: eq)
    next
      assume "fst (order_pair j s1 s2) = s2\<lparr>i_box_pair := j\<rparr>"
      then show ?thesis using in_bs[OF m2] by (simp add: eq)
    qed
  qed
  have rows: "row_x (arr (initial_engine a p ax0)) = map x bs"
    "length (row_top (arr (initial_engine a p ax0))) = length bs"
    "length (row_count (arr (initial_engine a p ax0))) = length bs"
    by (simp_all add: initial_engine_def init_y_stack_arr_def Let_def pb)
  have ints: "\<exists>k. t = Some (real_of_int k)"
    if d: "int_dtype (arr (initial_engine a p ax0))"
      and t: "t \<in> set (row_top (arr (initial_engine a p ax0)))" for t
  proof -
    from d have all: "list_all int_typed bs"
      by (simp add: initial_engine_def init_y_stack_arr_def Let_def pb)
    show ?thesis
    proof (cases "loc a = ''outside''")
      case True
      then have "t = store_as True (Some (snd (p_ylim p)))"
        using t d by (auto simp: initial_engine_def init_y_stack_arr_def Let_def pb)
      then show ?thesis using store_as_int by simp
    next
      case False
      then obtain b where "b \<in> set bs" "t = ymax b"
        using t by (auto simp: initial_engine_def init_y_stack_arr_def Let_def pb)
      then show ?thesis
        using make_box_structs_int[OF mk] all by (auto simp: list_all_iff)
    qed
  qed
  show ?thesis
    unfolding geometry_ok_def rows pp
  proof (intro conjI ballI impI)
    show "sorted_wrt (<) (map x bs)" by (rule strict)
    show "length bs = length (map x bs)" by simp
    show "length bs = length (map x bs)" by simp
  next
    fix pr assume "pr \<in> set (sort_box_struct_pairs pairs)"
    from pair_ok[OF this]
    show "xi (fst pr) < length (map x bs)" and "map x bs ! xi (fst pr) = x (fst pr)"
      by simp_all
  next
    fix t assume "int_dtype (arr (initial_engine a p ax0))"
      and "t \<in> set (row_top (arr (initial_engine a p ax0)))"
    then show "\<exists>k. t = Some (real_of_int k)" by (rule ints)
  qed
qed


lemma annotate_all_row_x:
  assumes "annotate_all e a tbl yo yob yr prs st = (r, st')"
  shows "row_x (arr st') = row_x (arr st)"
  using assms
proof (induction prs arbitrary: st)
  case Nil
  then show ?case by simp
next
  case (Cons pr prs)
  show ?case
  proof (cases "annotate_pair e a tbl yo yob yr pr st")
    case (Inl err)
    then show ?thesis using Cons.prems by simp
  next
    case (Inr st1)
    have "row_x (arr st1) = row_x (arr st)"
      using Inr by (elim annotate_pair_Inr) (simp add: update_stack_rows)
    then show ?thesis using Cons.prems Cons.IH[of st1] Inr by simp
  qed
qed

lemma zip_parts_left:
  assumes "zip ps rs = before @ mid @ rest"
  shows "set (map fst mid) \<subseteq> set ps"
proof
  fix u assume "u \<in> set (map fst mid)"
  then obtain w where "w \<in> set mid" "u = fst w" by auto
  then have "w \<in> set (zip ps rs)" using assms by simp
  then show "u \<in> set ps" using \<open>u = fst w\<close> by (metis prod.collapse set_zip_leftD)
qed



lemma two_pairs_prepare:
  "prepare example_ext two_pairs_args example_axes = Inr two_pairs_prepared"
  by (simp add: two_pairs_prepared_def model_defs example_defs Let_def)

lemma example_text_above_bracket: "text_above_bracket example_ext two_pairs_args"
  by (auto simp: text_above_bracket_def example_defs)


lemma annotate_all_int_dtype:
  assumes "annotate_all e a tbl yo yob yr prs st = (r, st')" and "geometry_ok (arr st) qs"
  shows "int_dtype (arr st') = int_dtype (arr st)"
  using assms
proof (induction prs arbitrary: st)
  case Nil
  then show ?case by simp
next
  case (Cons pr prs)
  show ?case
  proof (cases "annotate_pair e a tbl yo yob yr pr st")
    case (Inl err)
    then show ?thesis using Cons.prems by simp
  next
    case (Inr st1)
    then show ?thesis
      using Cons.prems Cons.IH[of st1] annotate_pair_keeps_geometry(1,3)[OF Inr Cons.prems(2)]
      by simp
  qed
qed

text \<open>
  On a stack of float dtype, with unique x positions of the boxes, offsets and bracket
  height that are not negative and a text that is not reported below the bracket it is
  drawn on: when a pair \<open>pb\<close> is processed after a pair \<open>pa\<close> and a box position
  lies between the boxes of both, the y of the bracket of \<open>pb\<close> is at least the top
  consumed by the annotation of \<open>pa\<close> plus the smaller of the two offsets.
\<close>

lemma later_bracket_above_earlier_top_float:
  assumes prep: "prepare e a ax0 = Inr p"
    and dist: "distinct (map x (p_box_structs p))"
    and flt: "\<not> int_dtype (arr (initial_engine a p ax0))"
    and nonneg: "0 \<le> p_y_offset p" "0 \<le> p_y_offset_to_box p"
                "0 \<le> line_height a * (snd (p_ylim p) - fst (p_ylim p))"
    and rend: "text_above_bracket e a"
    and parts: "zip (p_pairs p) (p_results p) = before @ pa # mid @ pb # rest"
    and run1: "annotate_all e a (p_thresholds p) (p_y_offset p) (p_y_offset_to_box p)
                 (snd (p_ylim p) - fst (p_ylim p)) before (initial_engine a p ax0) = (None, s1)"
    and stepa: "annotate_pair e a (p_thresholds p) (p_y_offset p) (p_y_offset_to_box p)
                 (snd (p_ylim p) - fst (p_ylim p)) pa s1 = Inr s2"
    and run2: "annotate_all e a (p_thresholds p) (p_y_offset p) (p_y_offset_to_box p)
                 (snd (p_ylim p) - fst (p_ylim p)) mid s2 = (None, s3)"
    and stepb: "annotate_pair e a (p_thresholds p) (p_y_offset p) (p_y_offset_to_box p)
                 (snd (p_ylim p) - fst (p_ylim p)) pb s3 = Inr s4"
    and pos: "j < length (p_box_structs p)"
      "in_range (x (fst (fst pa))) (x (snd (fst pa))) (x (p_box_structs p ! j))"
      "in_range (x (fst (fst pb))) (x (snd (fst pb))) (x (p_box_structs p ! j))"
  shows "\<exists>t y. last (y_stack s2) = Some t
             \<and> hd (snd (last (plotted (surface s4)))) = Some y
             \<and> t + min (p_y_offset p) (p_y_offset_to_box p) \<le> y
             \<and> t \<le> y"
proof -
  let ?yr = "snd (p_ylim p) - fst (p_ylim p)"
  have g0: "geometry_ok (arr (initial_engine a p ax0)) (p_pairs p)"
    by (rule initial_geometry[OF prep dist])
  have g1: "geometry_ok (arr s1) (p_pairs p)"
    by (rule annotate_all_keeps_geometry[OF run1 g0])
  have g2: "geometry_ok (arr s2) (p_pairs p)"
    by (rule annotate_pair_keeps_geometry(1)[OF stepa g1])
  have g3: "geometry_ok (arr s3) (p_pairs p)"
    by (rule annotate_all_keeps_geometry[OF run2 g2])
  have in_zip: "set (map fst (pa # mid @ pb # rest)) \<subseteq> set (p_pairs p)"
    using zip_parts_left[of "p_pairs p" "p_results p" before "pa # mid @ pb # rest" "[]"] parts
    by simp
  have ga: "geometry_ok (arr s1) [fst pa]"
    using in_zip by (intro geometry_ok_subset[OF g1]) simp
  have gm: "geometry_ok (arr s2) (map fst mid)"
    using in_zip by (intro geometry_ok_subset[OF g2]) auto
  have gb: "geometry_ok (arr s3) [fst pb]"
    using in_zip by (intro geometry_ok_subset[OF g3]) simp
  have rx0: "row_x (arr (initial_engine a p ax0)) = map x (p_box_structs p)"
    by (simp add: initial_engine_def init_y_stack_arr_def Let_def)
  have rx1: "row_x (arr s1) = map x (p_box_structs p)"
    using annotate_all_row_x[OF run1] rx0 by simp
  have len1: "length (row_top (arr s1)) = length (p_box_structs p)"
    using g1 rx1 by (simp add: geometry_ok_def)
  from annotate_pair_geometry[OF stepa ga rend] obtain Ma offa ta where
    ya: "y_stack s2 = y_stack s1 @ [Some ta]" and
    upa: "arr s2 = update_stack (x (fst (fst pa))) (x (snd (fst pa))) (xi (fst (fst pa)))
                     (xi (snd (fst pa))) (Some ta) (arr s1)"
    by metis
  have "\<not> int_dtype (arr s1)"
    using annotate_all_int_dtype[OF run1 g0] flt by simp
  then have top2: "row_top (arr s2) ! j = Some ta"
    using pos(1,2) rx1 len1 by (simp add: upa update_stack_top_nth store_as_def)
  have rx2: "row_x (arr s2) = map x (p_box_structs p)"
    using rx1 by (simp add: upa update_stack_rows)
  have len2: "length (row_top (arr s2)) = length (p_box_structs p)"
    using g2 rx2 by (simp add: geometry_ok_def)
  from annotate_all_mono[OF run2 gm rend nonneg] have
    "nan_le (row_top (arr s2) ! j) (row_top (arr s3) ! j)"
    using pos(1) len2 by simp
  then obtain v where top3: "row_top (arr s3) ! j = Some v" and tv: "ta \<le> v"
    using top2 by (auto simp: nan_le_def split: option.splits)
  have rx3: "row_x (arr s3) = map x (p_box_structs p)"
    using annotate_all_row_x[OF run2] rx2 by simp
  from annotate_pair_geometry[OF stepb gb rend] obtain Mb offb tb where
    bound: "\<forall>j<length (row_x (arr s3)).
              in_range (x (fst (fst pb))) (x (snd (fst pb))) (row_x (arr s3) ! j)
              \<longrightarrow> (\<forall>v. row_top (arr s3) ! j = Some v \<longrightarrow> v \<le> Mb)" and
    offb: "offb = p_y_offset p \<or> offb = p_y_offset_to_box p" and
    pl: "plotted (surface s4)
           = plotted (surface s3)
             @ [([x (fst (fst pb)), x (fst (fst pb)), x (snd (fst pb)), x (snd (fst pb))],
                 [Some (Mb + offb), Some (Mb + offb + line_height a * ?yr),
                  Some (Mb + offb + line_height a * ?yr), Some (Mb + offb)])]"
    by metis
  have vM: "v \<le> Mb"
    using bound pos(1,3) rx3 top3 by simp
  have y: "hd (snd (last (plotted (surface s4)))) = Some (Mb + offb)"
    by (simp add: pl)
  have "ta + min (p_y_offset p) (p_y_offset_to_box p) \<le> Mb + offb"
    using tv vM offb by auto
  moreover have "ta \<le> Mb + offb"
    using tv vM offb nonneg(1,2) by auto
  ultimately show ?thesis
    using ya y by simp
qed


lemma later_bracket_above_earlier_top_float_example:
  "\<exists>t y. last (y_stack after_first) = Some t
         \<and> hd (snd (last (plotted (surface after_second)))) = Some y
         \<and> t + min (p_y_offset two_pairs_prepared) (p_y_offset_to_box two_pairs_prepared) \<le> y
         \<and> t \<le> y"
proof -
  let ?p = two_pairs_prepared
  let ?z = "zip (p_pairs ?p) (p_results ?p)"
  let ?s1 = "initial_engine two_pairs_args ?p example_axes"
  let ?yr = "snd (p_ylim ?p) - fst (p_ylim ?p)"
  have d: "distinct (map x (p_box_structs ?p))"
    by (simp add: two_pairs_prepared_def model_defs example_defs Let_def)
  have f: "\<not> int_dtype (arr ?s1)"
    by (simp add: two_pairs_prepared_def model_defs example_defs Let_def)
  have n: "0 \<le> p_y_offset ?p" "0 \<le> p_y_offset_to_box ?p"
          "0 \<le> line_height two_pairs_args * ?yr"
    by (simp_all add: two_pairs_prepared_def model_defs example_defs Let_def)
  have parts: "?z = [] @ (?z ! 0) # [] @ (?z ! 1) # []"
    by (simp add: two_pairs_prepared_def model_defs example_defs Let_def)
  have r1: "annotate_all example_ext two_pairs_args (p_thresholds ?p) (p_y_offset ?p)
              (p_y_offset_to_box ?p) ?yr [] ?s1 = (None, ?s1)"
    by simp
  have sa: "annotate_pair example_ext two_pairs_args (p_thresholds ?p) (p_y_offset ?p)
              (p_y_offset_to_box ?p) ?yr (?z ! 0) ?s1 = Inr after_first"
    by (simp add: after_first_def two_pairs_prepared_def model_defs example_defs Let_def)
  have r2: "annotate_all example_ext two_pairs_args (p_thresholds ?p) (p_y_offset ?p)
              (p_y_offset_to_box ?p) ?yr [] after_first = (None, after_first)"
    by simp
  have sb: "annotate_pair example_ext two_pairs_args (p_thresholds ?p) (p_y_offset ?p)
              (p_y_offset_to_box ?p) ?yr (?z ! 1) after_first = Inr after_second"
    by (simp add: after_second_def after_first_def two_pairs_prepared_def model_defs
          example_defs Let_def)
  have j: "0 < length (p_box_structs ?p)"
    "in_range (x (fst (fst (?z ! 0)))) (x (snd (fst (?z ! 0)))) (x (p_box_structs ?p ! 0))"
    "in_range (x (fst (fst (?z ! 1)))) (x (snd (fst (?z ! 1)))) (x (p_box_structs ?p ! 0))"
    by (simp_all add: two_pairs_prepared_def model_defs example_defs Let_def)
  show ?thesis
    by (rule later_bracket_above_earlier_top_float
               [OF two_pairs_prepare d f n example_text_above_bracket parts r1 sa r2 sb j])
qed


text \<open>
  C6. A bracket drawn over a position that an earlier annotation of the same call has
  updated is meant to lie at or above the top consumed by that annotation. The code does
  not achieve this on observations of integer dtype without hue: the stack is then an
  array of integer dtype, and the top consumed by the first annotation, 12.8, is stored
  as 12. The second pair (A, C) spans the positions of the first, (A, B); its query finds
  12, with one annotation stacked, and its bracket is drawn at y = 12.5, below the top
  12.8 of the first annotation. With the same observations as floats the second bracket
  is drawn at y = 13.3.
\<close>

theorem integer_data_bracket_below_earlier_top:
  "int_dtype (init_y_stack_arr ''inside'' (3, 13) (projr (make_box_structs four_int_groups)))
   \<and> snd (add_stat_annotation example_ext int_pairs_args example_axes)
       = \<lparr>ylim = (3, 1.03 * 12.8),
          plotted = [([0, 0, 1, 1], [Some 12.6, Some 12.8, Some 12.8, Some 12.6]),
                     ([0, 0, 2, 2], [Some 12.5, Some 12.7, Some 12.7, Some 12.5])],
          annotated = []\<rparr>
   \<and> \<not> isl (fst (add_stat_annotation example_ext int_pairs_args example_axes))
   \<and> y_stack (snd (annotate_prepared example_ext int_pairs_args
                      (projr (prepare example_ext int_pairs_args example_axes)) example_axes))
       = [Some 12.8, Some 12.7]
   \<and> row_top (arr (snd (annotate_prepared example_ext int_pairs_args
                           (projr (prepare example_ext int_pairs_args example_axes)) example_axes)))
       = [Some 12, Some 12, Some 12, Some 9]
   \<and> snd (add_stat_annotation example_ext (int_pairs_args\<lparr>box_plotter := four_groups\<rparr>)
            example_axes)
       = \<lparr>ylim = (3, 1.03 * 13.5),
          plotted = [([0, 0, 1, 1], [Some 12.6, Some 12.8, Some 12.8, Some 12.6]),
                     ([0, 0, 2, 2], [Some 13.3, Some 13.5, Some 13.5, Some 13.3])],
          annotated = []\<rparr>"
  by (simp add: model_defs example_defs Let_def)

end
